theory Spec2Isabelle
  imports Main
begin

section \<open>The scientific extension of pystac: data model\<close>

text \<open>
  The development embeds \<^verbatim>\<open>pystac/extensions/scientific.py\<close>. A Python \<^verbatim>\<open>str\<close> is
  represented by the list of the bytes of its UTF-8 encoding, so that \<^typ>\<open>string\<close> covers
  every text the functions can receive; the characters the code inspects (digits, dot, slash,
  newline, the unreserved characters of a URL) are ASCII and are single bytes there.
\<close>

subsection \<open>Module constants\<close>

definition PREFIX :: string where
  "PREFIX = ''sci:''"

definition DOI :: string where
  "DOI = PREFIX @ ''doi''"

definition CITATION :: string where
  "CITATION = PREFIX @ ''citation''"

definition PUBLICATIONS :: string where
  "PUBLICATIONS = PREFIX @ ''publications''"

definition CITE_AS :: string where
  "CITE_AS = ''cite-as''"

definition DOI_URL_BASE :: string where
  "DOI_URL_BASE = ''https://doi.org/''"

subsection \<open>Regular expressions, as far as \<^verbatim>\<open>DOI_REGEX\<close> needs them\<close>

text \<open>
  \<^verbatim>\<open>re.match(p, s)\<close> succeeds when some prefix of \<^verbatim>\<open>s\<close> is matched by \<^verbatim>\<open>p\<close>. The
  matcher below decides that with derivatives. \<^verbatim>\<open>RDot\<close> is Python's \<^verbatim>\<open>.\<close> without the
  DOTALL flag: any character except the newline.
\<close>

datatype regex =
    RNone
  | REps
  | RChar char
  | RRange char char
  | RDot
  | RSeq regex regex
  | RAlt regex regex
  | RStar regex

definition newline :: char where
  "newline = CHR 0x0A"

fun atom_ok :: "regex \<Rightarrow> char \<Rightarrow> bool" where
  "atom_ok (RChar a) c = (c = a)"
| "atom_ok (RRange lo hi) c = ((of_char lo :: nat) \<le> of_char c \<and> (of_char c :: nat) \<le> of_char hi)"
| "atom_ok RDot c = (c \<noteq> newline)"
| "atom_ok _ c = False"

fun nullable :: "regex \<Rightarrow> bool" where
  "nullable RNone = False"
| "nullable REps = True"
| "nullable (RChar a) = False"
| "nullable (RRange lo hi) = False"
| "nullable RDot = False"
| "nullable (RSeq r s) = (nullable r \<and> nullable s)"
| "nullable (RAlt r s) = (nullable r \<or> nullable s)"
| "nullable (RStar r) = True"

fun deriv :: "char \<Rightarrow> regex \<Rightarrow> regex" where
  "deriv c RNone = RNone"
| "deriv c REps = RNone"
| "deriv c (RChar a) = (if atom_ok (RChar a) c then REps else RNone)"
| "deriv c (RRange lo hi) = (if atom_ok (RRange lo hi) c then REps else RNone)"
| "deriv c RDot = (if atom_ok RDot c then REps else RNone)"
| "deriv c (RSeq r s) =
     (if nullable r then RAlt (RSeq (deriv c r) s) (deriv c s) else RSeq (deriv c r) s)"
| "deriv c (RAlt r s) = RAlt (deriv c r) (deriv c s)"
| "deriv c (RStar r) = RSeq (deriv c r) (RStar r)"

fun re_match :: "regex \<Rightarrow> string \<Rightarrow> bool" where
  "re_match r [] = nullable r"
| "re_match r (c # cs) = (nullable r \<or> re_match (deriv c r) cs)"

fun rseq :: "regex list \<Rightarrow> regex" where
  "rseq [] = REps"
| "rseq [r] = r"
| "rseq (r # rs) = RSeq r (rseq rs)"

definition rplus :: "regex \<Rightarrow> regex" where
  "rplus r = RSeq r (RStar r)"

definition rrep :: "nat \<Rightarrow> regex \<Rightarrow> regex" where
  "rrep n r = rseq (replicate n r)"

definition rdigit :: regex where
  "rdigit = RRange (CHR ''0'') (CHR ''9'')"

text \<open>\<^verbatim>\<open>DOI_REGEX = r'10[.][0-9]{4}([.][0-9]+)*/.+'\<close>\<close>

definition DOI_REGEX :: regex where
  "DOI_REGEX = rseq [RChar (CHR ''1''), RChar (CHR ''0''), RChar (CHR ''.''),
     rrep 4 rdigit,
     RStar (RSeq (RChar (CHR ''.'')) (rplus rdigit)),
     RChar (CHR ''/''),
     rplus RDot]"

text \<open>The language of a regular expression, to state what the matcher decides.\<close>

inductive_set star :: "string set \<Rightarrow> string set" for A :: "string set" where
  star_nil: "[] \<in> star A"
| star_app: "u \<in> A \<Longrightarrow> v \<in> star A \<Longrightarrow> u @ v \<in> star A"

definition conc :: "string set \<Rightarrow> string set \<Rightarrow> string set" where
  "conc A B = {u @ v | u v. u \<in> A \<and> v \<in> B}"

fun lang :: "regex \<Rightarrow> string set" where
  "lang RNone = {}"
| "lang REps = {[]}"
| "lang (RChar a) = {[c] | c. atom_ok (RChar a) c}"
| "lang (RRange lo hi) = {[c] | c. atom_ok (RRange lo hi) c}"
| "lang RDot = {[c] | c. atom_ok RDot c}"
| "lang (RSeq r s) = conc (lang r) (lang s)"
| "lang (RAlt r s) = lang r \<union> lang s"
| "lang (RStar r) = star (lang r)"

subsection \<open>DOI utilities\<close>

text \<open>\<^verbatim>\<open>def is_doi_valid(doi): return bool(re.match(DOI_REGEX, doi))\<close>\<close>

definition is_doi_valid :: "string \<Rightarrow> bool" where
  "is_doi_valid s = re_match DOI_REGEX s"

text \<open>
  The pattern in the words of the specification: the literal \<^verbatim>\<open>10.\<close>, exactly four
  digits, any number of groups of a dot and digits, a slash, and at least one more character
  \<open>c\<close>, with anything after it. The parameter says which characters \<open>c\<close> may be.
\<close>

definition is_digit :: "char \<Rightarrow> bool" where
  "is_digit c = (c \<in> set ''0123456789'')"

fun dot_group :: "string \<Rightarrow> bool" where
  "dot_group [] = False"
| "dot_group (x # ds) = (x = CHR ''.'' \<and> ds \<noteq> [] \<and> list_all is_digit ds)"

definition doi_pattern :: "(char \<Rightarrow> bool) \<Rightarrow> string \<Rightarrow> bool" where
  "doi_pattern first_ok s =
     (\<exists>d gs c rest. s = ''10.'' @ d @ concat gs @ ''/'' @ c # rest \<and>
        length d = 4 \<and> list_all is_digit d \<and> list_all dot_group gs \<and> first_ok c)"

definition any_char :: "char \<Rightarrow> bool" where
  "any_char c = True"

definition not_newline :: "char \<Rightarrow> bool" where
  "not_newline c = (c \<noteq> newline)"

text \<open>
  \<^verbatim>\<open>urllib.parse.quote(string)\<close> of the Python standard library, with its default
  \<^verbatim>\<open>safe='/'\<close>: the string is encoded as UTF-8, and every byte that is not a letter, a
  digit, one of \<^verbatim>\<open>_.-~\<close> or a safe character becomes \<^verbatim>\<open>%XX\<close>, two upper-case
  hexadecimal digits.
\<close>

definition ALWAYS_SAFE :: string where
  "ALWAYS_SAFE = ''ABCDEFGHIJKLMNOPQRSTUVWXYZabcdefghijklmnopqrstuvwxyz0123456789_.-~''"

definition hex_digit :: "nat \<Rightarrow> char" where
  "hex_digit n = ''0123456789ABCDEF'' ! (n mod 16)"

definition quoter :: "string \<Rightarrow> char \<Rightarrow> string" where
  "quoter safe b =
     (if b \<in> set safe then [b]
      else [CHR ''%'', hex_digit (of_char b div 16), hex_digit (of_char b mod 16)])"

definition quote_from_bytes :: "string \<Rightarrow> string \<Rightarrow> string" where
  "quote_from_bytes bs safe = concat (map (quoter (ALWAYS_SAFE @ safe)) bs)"

definition quote :: "string \<Rightarrow> string" where
  "quote s = quote_from_bytes s ''/''"

text \<open>\<^verbatim>\<open>def doi_to_url(doi): return DOI_URL_BASE + parse.quote(doi)\<close>\<close>

definition doi_to_url :: "string \<Rightarrow> string" where
  "doi_to_url s = DOI_URL_BASE @ quote s"

text \<open>
  Percent-decoding, the inverse a percent-encoding is read with: \<^verbatim>\<open>%XX\<close> becomes the byte
  with that hexadecimal code, every other character stands for itself.
\<close>

definition hex_value :: "char \<Rightarrow> nat" where
  "hex_value c = (if is_digit c then of_char c - 48 else of_char c - 55)"

fun unquote :: "string \<Rightarrow> string" where
  "unquote [] = []"
| "unquote [a] = [a]"
| "unquote [a, b] = [a, b]"
| "unquote (a # b # c # rest) =
     (if a = CHR ''%'' then char_of (16 * hex_value b + hex_value c) # unquote rest
      else a # unquote (b # c # rest))"

subsection \<open>Errors and outcomes\<close>

text \<open>
  The exceptions the module can raise. A mutating method returns its outcome together with
  the host as it is left: Python mutates in place, so what was written before a raise stays.
\<close>

datatype error = KeyError string | ValueError | TypeError | AttributeError

type_synonym 'h action = "'h \<Rightarrow> (error + unit) \<times> 'h"

definition skip :: "'h action" where
  "skip h = (Inr (), h)"

definition and_then :: "'h action \<Rightarrow> 'h action \<Rightarrow> 'h action" where
  "and_then f g h = (case f h of (Inl e, h') \<Rightarrow> (Inl e, h') | (Inr u, h') \<Rightarrow> g h')"

text \<open>A list comprehension over a function that may raise stops at the first raise.\<close>

fun map_result :: "('a \<Rightarrow> error + 'b) \<Rightarrow> 'a list \<Rightarrow> error + 'b list" where
  "map_result f [] = Inr []"
| "map_result f (x # xs) =
     (case f x of
        Inl e \<Rightarrow> Inl e
      | Inr y \<Rightarrow> (case map_result f xs of Inl e \<Rightarrow> Inl e | Inr ys \<Rightarrow> Inr (y # ys)))"

text \<open>\<^verbatim>\<open>list.remove(x)\<close>: deletes the first element equal to \<^verbatim>\<open>x\<close>, ValueError if none is.\<close>

fun list_remove :: "'a \<Rightarrow> 'a list \<Rightarrow> error + 'a list" where
  "list_remove x [] = Inl ValueError"
| "list_remove x (y # ys) =
     (if y = x then Inr ys
      else (case list_remove x ys of Inl e \<Rightarrow> Inl e | Inr zs \<Rightarrow> Inr (y # zs)))"

subsection \<open>Publication\<close>

record publication =
  doi :: string
  citation :: string

text \<open>A serialized publication is a Python dict with string keys; dict equality is equality of maps.\<close>

type_synonym pubdict = "string \<rightharpoonup> string"

text \<open>\<^verbatim>\<open>Publication.__eq__\<close>, for two publications.\<close>

definition publication_eq :: "publication \<Rightarrow> publication \<Rightarrow> bool" where
  "publication_eq self other = (doi self = doi other \<and> citation self = citation other)"

definition to_dict :: "publication \<Rightarrow> pubdict" where
  "to_dict self = [''doi'' \<mapsto> doi self, ''citation'' \<mapsto> citation self]"

definition from_dict :: "pubdict \<Rightarrow> error + publication" where
  "from_dict d =
     (case d ''doi'' of
        None \<Rightarrow> Inl (KeyError ''doi'')
      | Some x \<Rightarrow>
          (case d ''citation'' of
             None \<Rightarrow> Inl (KeyError ''citation'')
           | Some y \<Rightarrow> Inr \<lparr>doi = x, citation = y\<rparr>))"

record link =
  rel :: string
  target :: string

definition get_link :: "publication \<Rightarrow> link" where
  "get_link self = \<lparr>rel = CITE_AS, target = doi_to_url (doi self)\<rparr>"

subsection \<open>Objects with identity: what \<^verbatim>\<open>to_dict\<close> returns\<close>

text \<open>
  To speak of a fresh copy, objects live in a heap: a list of objects, an address being an
  index. Strings are immutable values and stay inside the objects. \<^verbatim>\<open>to_dict\<close> builds the
  dict literal, then \<^verbatim>\<open>copy.deepcopy\<close> builds a second dict and returns it.
\<close>

datatype obj = PublicationObj publication | DictObj pubdict

type_synonym heap = "obj list"

definition alloc :: "obj \<Rightarrow> heap \<Rightarrow> nat \<times> heap" where
  "alloc x h = (length h, h @ [x])"

definition deref :: "heap \<Rightarrow> nat \<Rightarrow> obj option" where
  "deref h a = (if a < length h then Some (h ! a) else None)"

definition deepcopy :: "nat \<Rightarrow> heap \<Rightarrow> error + nat \<times> heap" where
  "deepcopy a h = (case deref h a of None \<Rightarrow> Inl TypeError | Some x \<Rightarrow> Inr (alloc x h))"

definition heap_to_dict :: "nat \<Rightarrow> heap \<Rightarrow> error + nat \<times> heap" where
  "heap_to_dict self h =
     (case deref h self of
        Some (PublicationObj p) \<Rightarrow>
          (case alloc (DictObj [''doi'' \<mapsto> doi p, ''citation'' \<mapsto> citation p]) h of
             (lit, h1) \<Rightarrow> deepcopy lit h1)
      | _ \<Rightarrow> Inl AttributeError)"

text \<open>\<^verbatim>\<open>d[k] = v\<close> and \<^verbatim>\<open>del d[k]\<close> on the dict at an address.\<close>

definition dict_setitem :: "nat \<Rightarrow> string \<Rightarrow> string \<Rightarrow> heap \<Rightarrow> error + heap" where
  "dict_setitem a k v h =
     (case deref h a of
        Some (DictObj d) \<Rightarrow> Inr (h[a := DictObj (d(k \<mapsto> v))])
      | _ \<Rightarrow> Inl TypeError)"

definition dict_delitem :: "nat \<Rightarrow> string \<Rightarrow> heap \<Rightarrow> error + heap" where
  "dict_delitem a k h =
     (case deref h a of
        Some (DictObj d) \<Rightarrow>
          (if d k = None then Inl (KeyError k) else Inr (h[a := DictObj (d(k := None))]))
      | _ \<Rightarrow> Inl TypeError)"

datatype dict_mutation = SetItem string string | DelItem string

fun mutate :: "nat \<Rightarrow> dict_mutation \<Rightarrow> heap \<Rightarrow> heap" where
  "mutate a (SetItem k v) h = (case dict_setitem a k v h of Inl e \<Rightarrow> h | Inr h' \<Rightarrow> h')"
| "mutate a (DelItem k) h = (case dict_delitem a k h of Inl e \<Rightarrow> h | Inr h' \<Rightarrow> h')"

subsection \<open>Link synchronizer\<close>

text \<open>
  \<^verbatim>\<open>remove_link\<close> scans the links in order, skips those whose relation is not
  \<^verbatim>\<open>cite-as\<close>, deletes the first one whose target is the URL and stops.
\<close>

fun remove_link_loop :: "string \<Rightarrow> link list \<Rightarrow> link list" where
  "remove_link_loop url [] = []"
| "remove_link_loop url (a_link # rest) =
     (if rel a_link \<noteq> CITE_AS then a_link # remove_link_loop url rest
      else if target a_link = url then rest
      else a_link # remove_link_loop url rest)"

definition remove_link :: "link list \<Rightarrow> publication \<Rightarrow> link list" where
  "remove_link links pub = (let url = doi_to_url (doi pub) in remove_link_loop url links)"

subsection \<open>Hosts\<close>

text \<open>
  The values of a host's field bag that the extension writes or reads: a string, or a list of
  dicts. An item keeps its fields in \<^verbatim>\<open>properties\<close>, a collection in \<^verbatim>\<open>extra_fields\<close>;
  both have \<^verbatim>\<open>links\<close> (\<open>clinks\<close> for the collection, the field name being taken).
\<close>

datatype pyval = VStr string | VList "pubdict list"

record item =
  properties :: "string \<rightharpoonup> pyval"
  links :: "link list"

record collection =
  extra_fields :: "string \<rightharpoonup> pyval"
  clinks :: "link list"

text \<open>
  Modelled from the spec: \<^verbatim>\<open>Item.add_link\<close> and \<^verbatim>\<open>Collection.add_link\<close> of the host object
  model, which are not part of this module: the link is appended to the host's link sequence.
\<close>

definition add_link :: "link \<Rightarrow> item \<Rightarrow> item" where
  "add_link l it = it\<lparr>links := links it @ [l]\<rparr>"

definition c_add_link :: "link \<Rightarrow> collection \<Rightarrow> collection" where
  "c_add_link l co = co\<lparr>clinks := clinks co @ [l]\<rparr>"

definition fresh_item :: item where
  "fresh_item = \<lparr>properties = Map.empty, links = []\<rparr>"

definition fresh_collection :: collection where
  "fresh_collection = \<lparr>extra_fields = Map.empty, clinks = []\<rparr>"

subsection \<open>\<^verbatim>\<open>ScientificItemExt\<close>\<close>

definition ScientificItemExt_doi :: "item \<Rightarrow> pyval option" where
  "ScientificItemExt_doi it = properties it DOI"

text \<open>
  The setter writes the field, reads it back through the getter and quotes it;
  \<^verbatim>\<open>parse.quote\<close> raises TypeError on what is neither \<^verbatim>\<open>str\<close> nor \<^verbatim>\<open>bytes\<close>.
\<close>

definition ScientificItemExt_set_doi :: "string \<Rightarrow> item action" where
  "ScientificItemExt_set_doi v it =
     (let it1 = it\<lparr>properties := (properties it)(DOI \<mapsto> VStr v)\<rparr> in
      case ScientificItemExt_doi it1 of
        Some (VStr s) \<Rightarrow> (Inr (), add_link \<lparr>rel = CITE_AS, target = doi_to_url s\<rparr> it1)
      | _ \<Rightarrow> (Inl TypeError, it1))"

definition ScientificItemExt_citation :: "item \<Rightarrow> pyval option" where
  "ScientificItemExt_citation it = properties it CITATION"

definition ScientificItemExt_set_citation :: "string \<Rightarrow> item action" where
  "ScientificItemExt_set_citation v it =
     (Inr (), it\<lparr>properties := (properties it)(CITATION \<mapsto> VStr v)\<rparr>)"

text \<open>
  The getter maps \<^verbatim>\<open>from_dict\<close> over \<^verbatim>\<open>properties.get(PUBLICATIONS, [])\<close>. Over a string it
  would iterate the characters, and \<^verbatim>\<open>from_dict\<close> of a character raises TypeError.
\<close>

definition ScientificItemExt_publications :: "item \<Rightarrow> error + publication list" where
  "ScientificItemExt_publications it =
     (case properties it PUBLICATIONS of
        None \<Rightarrow> Inr []
      | Some (VList ds) \<Rightarrow> map_result from_dict ds
      | Some (VStr s) \<Rightarrow> (if s = [] then Inr [] else Inl TypeError))"

definition ScientificItemExt_set_publications :: "publication list \<Rightarrow> item action" where
  "ScientificItemExt_set_publications v it =
     (let it1 = it\<lparr>properties := (properties it)(PUBLICATIONS \<mapsto> VList (map to_dict v))\<rparr> in
      (Inr (), foldl (\<lambda>h pub. add_link (get_link pub) h) it1 v))"

text \<open>
  \<^verbatim>\<open>remove_publication\<close>: nothing without the field; with no publication given, the link of
  every stored publication is removed and the field deleted; with one given, its link is
  removed, then its dict is removed from the stored list (\<^verbatim>\<open>list.remove\<close>), and the field is
  deleted when the list has become empty. A \<^verbatim>\<open>Publication\<close> object is always truthy.
  The stored publications are read through the host's extension facade, which answers with
  this class's getter.
\<close>

definition ScientificItemExt_remove_publication :: "publication option \<Rightarrow> item action" where
  "ScientificItemExt_remove_publication publication it =
     (case properties it PUBLICATIONS of
        None \<Rightarrow> (Inr (), it)
      | Some stored \<Rightarrow>
          (case publication of
             None \<Rightarrow>
               (case ScientificItemExt_publications it of
                  Inl e \<Rightarrow> (Inl e, it)
                | Inr pubs \<Rightarrow>
                    (let it1 = it\<lparr>links := foldl remove_link (links it) pubs\<rparr> in
                     (Inr (), it1\<lparr>properties := (properties it1)(PUBLICATIONS := None)\<rparr>)))
           | Some pub \<Rightarrow>
               (let it1 = it\<lparr>links := remove_link (links it) pub\<rparr>;
                    to_remove = to_dict pub
                in case stored of
                     VStr s \<Rightarrow> (Inl AttributeError, it1)
                   | VList ds \<Rightarrow>
                       (case list_remove to_remove ds of
                          Inl e \<Rightarrow> (Inl e, it1)
                        | Inr ds' \<Rightarrow>
                            (if ds' = []
                             then (Inr (), it1\<lparr>properties := (properties it1)(PUBLICATIONS := None)\<rparr>)
                             else (Inr (), it1\<lparr>properties :=
                                     (properties it1)(PUBLICATIONS \<mapsto> VList ds')\<rparr>))))))"

text \<open>\<^verbatim>\<open>apply\<close> calls a setter for each argument that is truthy: given and not empty.\<close>

definition truthy :: "'a list option \<Rightarrow> bool" where
  "truthy a = (case a of None \<Rightarrow> False | Some xs \<Rightarrow> xs \<noteq> [])"

definition ScientificItemExt_apply ::
  "string option \<Rightarrow> string option \<Rightarrow> publication list option \<Rightarrow> item action" where
  "ScientificItemExt_apply a_doi a_citation publications =
     and_then (if truthy a_doi then ScientificItemExt_set_doi (the a_doi) else skip)
    (and_then (if truthy a_citation then ScientificItemExt_set_citation (the a_citation) else skip)
              (if truthy publications then ScientificItemExt_set_publications (the publications)
               else skip))"

subsection \<open>\<^verbatim>\<open>ScientificCollectionExt\<close>\<close>

definition ScientificCollectionExt_doi :: "collection \<Rightarrow> pyval option" where
  "ScientificCollectionExt_doi co = extra_fields co DOI"

definition ScientificCollectionExt_set_doi :: "string \<Rightarrow> collection action" where
  "ScientificCollectionExt_set_doi v co =
     (let co1 = co\<lparr>extra_fields := (extra_fields co)(DOI \<mapsto> VStr v)\<rparr> in
      case ScientificCollectionExt_doi co1 of
        Some (VStr s) \<Rightarrow> (Inr (), c_add_link \<lparr>rel = CITE_AS, target = doi_to_url s\<rparr> co1)
      | _ \<Rightarrow> (Inl TypeError, co1))"

definition ScientificCollectionExt_citation :: "collection \<Rightarrow> pyval option" where
  "ScientificCollectionExt_citation co = extra_fields co CITATION"

definition ScientificCollectionExt_set_citation :: "string \<Rightarrow> collection action" where
  "ScientificCollectionExt_set_citation v co =
     (Inr (), co\<lparr>extra_fields := (extra_fields co)(CITATION \<mapsto> VStr v)\<rparr>)"

definition ScientificCollectionExt_publications :: "collection \<Rightarrow> error + publication list" where
  "ScientificCollectionExt_publications co =
     (case extra_fields co PUBLICATIONS of
        None \<Rightarrow> Inr []
      | Some (VList ds) \<Rightarrow> map_result from_dict ds
      | Some (VStr s) \<Rightarrow> (if s = [] then Inr [] else Inl TypeError))"

definition ScientificCollectionExt_set_publications :: "publication list \<Rightarrow> collection action" where
  "ScientificCollectionExt_set_publications v co =
     (let co1 = co\<lparr>extra_fields := (extra_fields co)(PUBLICATIONS \<mapsto> VList (map to_dict v))\<rparr> in
      (Inr (), foldl (\<lambda>h pub. c_add_link (get_link pub) h) co1 v))"

definition ScientificCollectionExt_remove_publication ::
  "publication option \<Rightarrow> collection action" where
  "ScientificCollectionExt_remove_publication publication co =
     (case extra_fields co PUBLICATIONS of
        None \<Rightarrow> (Inr (), co)
      | Some stored \<Rightarrow>
          (case publication of
             None \<Rightarrow>
               (case ScientificCollectionExt_publications co of
                  Inl e \<Rightarrow> (Inl e, co)
                | Inr pubs \<Rightarrow>
                    (let co1 = co\<lparr>clinks := foldl remove_link (clinks co) pubs\<rparr> in
                     (Inr (), co1\<lparr>extra_fields := (extra_fields co1)(PUBLICATIONS := None)\<rparr>)))
           | Some pub \<Rightarrow>
               (let co1 = co\<lparr>clinks := remove_link (clinks co) pub\<rparr>;
                    to_remove = to_dict pub
                in case stored of
                     VStr s \<Rightarrow> (Inl AttributeError, co1)
                   | VList ds \<Rightarrow>
                       (case list_remove to_remove ds of
                          Inl e \<Rightarrow> (Inl e, co1)
                        | Inr ds' \<Rightarrow>
                            (if ds' = []
                             then (Inr (), co1\<lparr>extra_fields :=
                                     (extra_fields co1)(PUBLICATIONS := None)\<rparr>)
                             else (Inr (), co1\<lparr>extra_fields :=
                                     (extra_fields co1)(PUBLICATIONS \<mapsto> VList ds')\<rparr>))))))"

definition ScientificCollectionExt_apply ::
  "string option \<Rightarrow> string option \<Rightarrow> publication list option \<Rightarrow> collection action" where
  "ScientificCollectionExt_apply a_doi a_citation publications =
     and_then (if truthy a_doi then ScientificCollectionExt_set_doi (the a_doi) else skip)
    (and_then (if truthy a_citation then ScientificCollectionExt_set_citation (the a_citation)
               else skip)
              (if truthy publications
               then ScientificCollectionExt_set_publications (the publications)
               else skip))"

subsection \<open>Sequences of adapter operations\<close>

text \<open>
  A caller's use of an adapter: a sequence of calls, each observed by what it returns or
  raises. A caller may catch an exception and go on, so a run continues after a raise.
\<close>

datatype operation =
    Apply "string option" "string option" "publication list option"
  | GetDoi
  | SetDoi string
  | GetCitation
  | SetCitation string
  | GetPublications
  | SetPublications "publication list"
  | RemovePublication "publication option"

datatype observation =
    Done
  | Field "pyval option"
  | Publications "publication list"
  | Raised error

definition observe :: "(error + unit) \<times> 'h \<Rightarrow> observation \<times> 'h" where
  "observe r = (case r of (Inl e, h) \<Rightarrow> (Raised e, h) | (Inr u, h) \<Rightarrow> (Done, h))"

definition observe_pubs :: "error + publication list \<Rightarrow> observation" where
  "observe_pubs r = (case r of Inl e \<Rightarrow> Raised e | Inr ps \<Rightarrow> Publications ps)"

fun item_step :: "operation \<Rightarrow> item \<Rightarrow> observation \<times> item" where
  "item_step (Apply d c ps) it = observe (ScientificItemExt_apply d c ps it)"
| "item_step GetDoi it = (Field (ScientificItemExt_doi it), it)"
| "item_step (SetDoi v) it = observe (ScientificItemExt_set_doi v it)"
| "item_step GetCitation it = (Field (ScientificItemExt_citation it), it)"
| "item_step (SetCitation v) it = observe (ScientificItemExt_set_citation v it)"
| "item_step GetPublications it = (observe_pubs (ScientificItemExt_publications it), it)"
| "item_step (SetPublications v) it = observe (ScientificItemExt_set_publications v it)"
| "item_step (RemovePublication p) it = observe (ScientificItemExt_remove_publication p it)"

fun collection_step :: "operation \<Rightarrow> collection \<Rightarrow> observation \<times> collection" where
  "collection_step (Apply d c ps) co = observe (ScientificCollectionExt_apply d c ps co)"
| "collection_step GetDoi co = (Field (ScientificCollectionExt_doi co), co)"
| "collection_step (SetDoi v) co = observe (ScientificCollectionExt_set_doi v co)"
| "collection_step GetCitation co = (Field (ScientificCollectionExt_citation co), co)"
| "collection_step (SetCitation v) co = observe (ScientificCollectionExt_set_citation v co)"
| "collection_step GetPublications co =
     (observe_pubs (ScientificCollectionExt_publications co), co)"
| "collection_step (SetPublications v) co =
     observe (ScientificCollectionExt_set_publications v co)"
| "collection_step (RemovePublication p) co =
     observe (ScientificCollectionExt_remove_publication p co)"

fun run :: "(operation \<Rightarrow> 'h \<Rightarrow> observation \<times> 'h) \<Rightarrow> operation list \<Rightarrow> 'h \<Rightarrow> observation list \<times> 'h" where
  "run step [] h = ([], h)"
| "run step (x # xs) h =
     (case step x h of (ob, h1) \<Rightarrow> (case run step xs h1 of (obs, h2) \<Rightarrow> (ob # obs, h2)))"

text \<open>The same host seen as a collection: the field bag and the links, under the other names.\<close>

definition as_collection :: "item \<Rightarrow> collection" where
  "as_collection it = \<lparr>extra_fields = properties it, clinks = links it\<rparr>"

text \<open>
  Invariant I2 on a field bag: the publications field, when present, is a non-empty list of
  dicts that are serialized publications.
\<close>

definition is_serialized :: "pubdict \<Rightarrow> bool" where
  "is_serialized d = (case from_dict d of Inl e \<Rightarrow> False | Inr p \<Rightarrow> to_dict p = d)"

definition I2 :: "(string \<rightharpoonup> pyval) \<Rightarrow> bool" where
  "I2 bag =
     (case bag PUBLICATIONS of
        None \<Rightarrow> True
      | Some (VStr s) \<Rightarrow> False
      | Some (VList ds) \<Rightarrow> ds \<noteq> [] \<and> list_all is_serialized ds)"

text \<open>A link that \<^verbatim>\<open>remove_link\<close> looks for: a \<^verbatim>\<open>cite-as\<close> link to the publication's URL.\<close>

definition cites :: "publication \<Rightarrow> link \<Rightarrow> bool" where
  "cites pub l = (rel l = CITE_AS \<and> target l = doi_to_url (doi pub))"

definition as_item :: "collection \<Rightarrow> item" where
  "as_item co = \<lparr>properties = extra_fields co, links = clinks co\<rparr>"


section \<open>Properties\<close>

subsection \<open>The matcher decides prefix membership in the language\<close>

lemma nullable_iff: "nullable r \<longleftrightarrow> [] \<in> lang r"
  by (induction r) (auto simp: conc_def intro: star.intros)

lemma conc_Cons_iff:
  "c # w \<in> conc A B \<longleftrightarrow>
     (\<exists>u v. w = u @ v \<and> c # u \<in> A \<and> v \<in> B) \<or> ([] \<in> A \<and> c # w \<in> B)"
  unfolding conc_def by (auto simp: Cons_eq_append_conv) 

lemma star_Cons_D:
  "x \<in> star A \<Longrightarrow> x = c # w \<Longrightarrow> \<exists>u v. w = u @ v \<and> c # u \<in> A \<and> v \<in> star A"
proof (induction arbitrary: w rule: star.induct)
  case star_nil
  then show ?case by simp
next
  case (star_app u v)
  then show ?case by (cases u) auto
qed

lemma star_Cons_iff:
  "c # w \<in> star A \<longleftrightarrow> (\<exists>u v. w = u @ v \<and> c # u \<in> A \<and> v \<in> star A)"
proof
  assume "c # w \<in> star A"
  then show "\<exists>u v. w = u @ v \<and> c # u \<in> A \<and> v \<in> star A"
    using star_Cons_D by blast
next
  assume "\<exists>u v. w = u @ v \<and> c # u \<in> A \<and> v \<in> star A"
  then obtain u v where "w = u @ v" "c # u \<in> A" "v \<in> star A" by blast
  then show "c # w \<in> star A"
    using star_app [of "c # u" A v] by simp
qed

lemma deriv_iff: "w \<in> lang (deriv c r) \<longleftrightarrow> c # w \<in> lang r"
proof (induction r arbitrary: w)
  case (RSeq r s)
  then show ?case
    by (auto simp: conc_Cons_iff nullable_iff) (auto simp: conc_def)
next
  case (RStar r)
  then show ?case
    by (auto simp: star_Cons_iff conc_def)
qed auto

lemma re_match_iff: "re_match r s \<longleftrightarrow> (\<exists>p q. s = p @ q \<and> p \<in> lang r)"
proof (induction s arbitrary: r)
  case Nil
  then show ?case by (simp add: nullable_iff)
next
  case (Cons c cs)
  show ?case
  proof
    assume "re_match r (c # cs)"
    then consider "nullable r" | "re_match (deriv c r) cs" by auto
    then show "\<exists>p q. c # cs = p @ q \<and> p \<in> lang r"
    proof cases
      case 1
      then have "c # cs = [] @ (c # cs) \<and> [] \<in> lang r" by (simp add: nullable_iff)
      then show ?thesis by blast
    next
      case 2
      then obtain p q where "cs = p @ q" "p \<in> lang (deriv c r)"
        using Cons.IH by blast
      then have "c # cs = (c # p) @ q \<and> c # p \<in> lang r" by (simp add: deriv_iff)
      then show ?thesis by blast
    qed
  next
    assume "\<exists>p q. c # cs = p @ q \<and> p \<in> lang r"
    then obtain p q where pq: "c # cs = p @ q" "p \<in> lang r" by blast
    show "re_match r (c # cs)"
    proof (cases p)
      case Nil
      with pq show ?thesis by (auto simp: nullable_iff)
    next
      case (Cons a p')
      with pq have "cs = p' @ q" "p' \<in> lang (deriv c r)" by (auto simp: deriv_iff)
      then have "re_match (deriv c r) cs" using Cons.IH by blast
      then show ?thesis by simp
    qed
  qed
qed


lemma conc_assoc_mem:
  "w \<in> conc A B \<longleftrightarrow> (\<exists>u v. w = u @ v \<and> u \<in> A \<and> v \<in> B)"
  unfolding conc_def by blast

lemma lang_rseq_Cons: "lang (rseq (r # rs)) = conc (lang r) (lang (rseq rs))"
  by (cases rs) (auto simp: conc_def)

lemma digit_range_nat:
  "(48::nat) \<le> n \<and> n \<le> 57 \<longleftrightarrow> n \<in> {48, 49, 50, 51, 52, 53, 54, 55, 56, 57}"
  by (simp only: insert_iff empty_iff) arith

lemma is_digit_code: "is_digit c \<longleftrightarrow> (of_char c :: nat) \<in> of_char ` set ''0123456789''"
  unfolding is_digit_def by (rule inj_image_mem_iff [OF inj_of_char, symmetric])

lemma digit_codes:
  "(of_char ` set ''0123456789'' :: nat set) = {48, 49, 50, 51, 52, 53, 54, 55, 56, 57}"
  by simp

lemma is_digit_iff: "atom_ok rdigit c \<longleftrightarrow> is_digit c"
  unfolding is_digit_code digit_codes digit_range_nat [symmetric] by (simp add: rdigit_def)

lemma star_concat: "(\<forall>w \<in> set ws. w \<in> A) \<Longrightarrow> concat ws \<in> star A"
  by (induction ws) (auto intro: star.intros)

lemma star_imp_concat: "x \<in> star A \<Longrightarrow> \<exists>ws. x = concat ws \<and> (\<forall>w \<in> set ws. w \<in> A)"
proof (induction rule: star.induct)
  case star_nil
  have "[] = concat [] \<and> (\<forall>w \<in> set ([] :: string list). w \<in> A)" by simp
  then show ?case by blast
next
  case (star_app u v)
  then obtain ws where "v = concat ws" "\<forall>w \<in> set ws. w \<in> A" by blast
  with star_app.hyps(1) have "u @ v = concat (u # ws) \<and> (\<forall>w \<in> set (u # ws). w \<in> A)" by simp
  then show ?case by blast
qed

lemma star_iff_concat: "x \<in> star A \<longleftrightarrow> (\<exists>ws. x = concat ws \<and> (\<forall>w \<in> set ws. w \<in> A))"
  using star_concat star_imp_concat by blast

lemma star_atoms: "x \<in> star {[c] | c. P c} \<longleftrightarrow> list_all P x"
proof
  assume "x \<in> star {[c] | c. P c}"
  then show "list_all P x"
    by (induction rule: star.induct) auto
next
  assume "list_all P x"
  then show "x \<in> star {[c] | c. P c}"
  proof (induction x)
    case Nil
    then show ?case by (simp add: star_nil)
  next
    case (Cons a x)
    then have "[a] \<in> {[c] | c. P c}" "x \<in> star {[c] | c. P c}" by auto
    then show ?case using star_app [of "[a]" "{[c] | c. P c}" x] by simp
  qed
qed

lemma conc_atom:
  "w \<in> conc {[c] | c. P c} B \<longleftrightarrow> (case w of [] \<Rightarrow> False | c # v \<Rightarrow> P c \<and> v \<in> B)"
proof (cases w)
  case Nil
  then show ?thesis by (simp add: conc_def)
next
  case (Cons a l)
  have "a # l \<in> conc {[c] | c. P c} B \<longleftrightarrow> P a \<and> l \<in> B"
  proof
    assume "a # l \<in> conc {[c] | c. P c} B"
    then show "P a \<and> l \<in> B" by (auto simp: conc_def)
  next
    assume "P a \<and> l \<in> B"
    then have "a # l = [a] @ l \<and> [a] \<in> {[c] | c. P c} \<and> l \<in> B" by simp
    then show "a # l \<in> conc {[c] | c. P c} B" unfolding conc_def by blast
  qed
  with Cons show ?thesis by simp
qed

lemma lang_plus_atom:
  "lang r = {[c] | c. P c} \<Longrightarrow> x \<in> lang (rplus r) \<longleftrightarrow> x \<noteq> [] \<and> list_all P x"
  by (cases x) (simp_all add: rplus_def conc_atom star_atoms)

lemma lang_rdigit: "lang rdigit = {[c] | c. is_digit c}"
  using is_digit_iff by (simp add: rdigit_def)

lemma lang_digits4: "x \<in> lang (rrep 4 rdigit) \<longleftrightarrow> length x = 4 \<and> list_all is_digit x"
proof -
  have "x \<in> lang (rrep 4 rdigit) \<longleftrightarrow>
      (\<exists>a b c d. x = [a, b, c, d] \<and> is_digit a \<and> is_digit b \<and> is_digit c \<and> is_digit d)"
    by (auto simp: rrep_def eval_nat_numeral lang_rdigit conc_atom split: list.splits)
  also have "\<dots> \<longleftrightarrow> length x = 4 \<and> list_all is_digit x"
    by (auto simp: length_Suc_conv eval_nat_numeral)
  finally show ?thesis .
qed

lemma lang_dot_group: "x \<in> lang (RSeq (RChar (CHR ''.'')) (rplus rdigit)) \<longleftrightarrow> dot_group x"
  using conc_atom [of x "\<lambda>c. c = CHR ''.''" "lang (rplus rdigit)"]
  by (cases x) (simp_all add: lang_plus_atom [OF lang_rdigit])

lemma lang_groups:
  "x \<in> lang (RStar (RSeq (RChar (CHR ''.'')) (rplus rdigit))) \<longleftrightarrow>
     (\<exists>gs. x = concat gs \<and> list_all dot_group gs)"
  using lang_dot_group by (simp add: star_iff_concat list_all_iff del: lang.simps(6))

lemma lang_tail: "x \<in> lang (rplus RDot) \<longleftrightarrow> x \<noteq> [] \<and> list_all (\<lambda>c. c \<noteq> newline) x"
  by (rule lang_plus_atom) simp

lemma lang_slash_tail:
  "w \<in> lang (RSeq (RChar (CHR ''/'')) (rplus RDot)) \<longleftrightarrow>
     (\<exists>t. w = ''/'' @ t \<and> t \<noteq> [] \<and> list_all (\<lambda>c. c \<noteq> newline) t)"
  using conc_atom [of w "\<lambda>c. c = CHR ''/''" "lang (rplus RDot)"]
  by (cases w) (auto simp: lang_tail)

lemma lang_prefix:
  "w \<in> lang (RSeq (RChar (CHR ''1'')) (RSeq (RChar (CHR ''0'')) (RSeq (RChar (CHR ''.'')) r))) \<longleftrightarrow>
     (\<exists>v. w = ''10.'' @ v \<and> v \<in> lang r)"
proof -
  have a: "\<And>a w B. w \<in> conc (lang (RChar a)) B \<longleftrightarrow> (\<exists>v. w = a # v \<and> v \<in> B)"
  proof -
    fix a w B
    show "w \<in> conc (lang (RChar a)) B \<longleftrightarrow> (\<exists>v. w = a # v \<and> v \<in> B)"
      using conc_atom [of w "\<lambda>c. c = a" B] by (cases w) auto
  qed
  show ?thesis
    by (simp only: lang.simps(6) a) auto
qed

lemma DOI_REGEX_unfold:
  "DOI_REGEX = RSeq (RChar (CHR ''1'')) (RSeq (RChar (CHR ''0'')) (RSeq (RChar (CHR ''.''))
     (RSeq (rrep 4 rdigit) (RSeq (RStar (RSeq (RChar (CHR ''.'')) (rplus rdigit)))
       (RSeq (RChar (CHR ''/'')) (rplus RDot))))))"
  by (simp add: DOI_REGEX_def)

lemma lang_DOI_REGEX:
  "p \<in> lang DOI_REGEX \<longleftrightarrow>
     (\<exists>d gs t. p = ''10.'' @ d @ concat gs @ ''/'' @ t \<and> length d = 4 \<and> list_all is_digit d \<and>
        list_all dot_group gs \<and> t \<noteq> [] \<and> list_all (\<lambda>c. c \<noteq> newline) t)"
  (is "?L \<longleftrightarrow> ?R")
proof
  assume ?L
  then obtain v where v: "p = ''10.'' @ v"
      "v \<in> conc (lang (rrep 4 rdigit)) (conc (lang (RStar (RSeq (RChar (CHR ''.'')) (rplus rdigit))))
         (lang (RSeq (RChar (CHR ''/'')) (rplus RDot))))"
    unfolding DOI_REGEX_unfold lang_prefix by auto
  then obtain d g w where "v = d @ g @ w" "d \<in> lang (rrep 4 rdigit)"
      "g \<in> lang (RStar (RSeq (RChar (CHR ''.'')) (rplus rdigit)))"
      "w \<in> lang (RSeq (RChar (CHR ''/'')) (rplus RDot))"
    unfolding conc_assoc_mem by blast
  then obtain gs t where "v = d @ concat gs @ ''/'' @ t" "length d = 4" "list_all is_digit d"
      "list_all dot_group gs" "t \<noteq> []" "list_all (\<lambda>c. c \<noteq> newline) t"
    unfolding lang_digits4 lang_groups lang_slash_tail by blast
  with v(1) show ?R by blast
next
  assume ?R
  then obtain d gs t where *: "p = ''10.'' @ d @ concat gs @ ''/'' @ t" "length d = 4"
      "list_all is_digit d" "list_all dot_group gs" "t \<noteq> []" "list_all (\<lambda>c. c \<noteq> newline) t"
    by blast
  have "d \<in> lang (rrep 4 rdigit)" using * by (simp add: lang_digits4)
  moreover have "concat gs \<in> lang (RStar (RSeq (RChar (CHR ''.'')) (rplus rdigit)))"
    using * unfolding lang_groups by blast
  moreover have "''/'' @ t \<in> lang (RSeq (RChar (CHR ''/'')) (rplus RDot))"
    using * unfolding lang_slash_tail by blast
  ultimately have "d @ concat gs @ ''/'' @ t \<in> conc (lang (rrep 4 rdigit))
      (conc (lang (RStar (RSeq (RChar (CHR ''.'')) (rplus rdigit))))
         (lang (RSeq (RChar (CHR ''/'')) (rplus RDot))))"
    unfolding conc_assoc_mem by blast
  then show ?L
    unfolding DOI_REGEX_unfold lang_prefix using *(1) by auto
qed

lemma is_doi_valid_iff: "is_doi_valid s \<longleftrightarrow> doi_pattern not_newline s"
proof
  assume "is_doi_valid s"
  then obtain p q where "s = p @ q" "p \<in> lang DOI_REGEX"
    by (auto simp: is_doi_valid_def re_match_iff)
  then obtain d gs t where *: "s = ''10.'' @ d @ concat gs @ ''/'' @ t @ q" "length d = 4"
     "list_all is_digit d" "list_all dot_group gs" "t \<noteq> []" "list_all (\<lambda>c. c \<noteq> newline) t"
    by (auto simp: lang_DOI_REGEX)
  then obtain c t' where "t = c # t'" by (cases t) auto
  with * have "s = ''10.'' @ d @ concat gs @ ''/'' @ c # (t' @ q) \<and> length d = 4 \<and>
     list_all is_digit d \<and> list_all dot_group gs \<and> not_newline c" by (simp add: not_newline_def)
  then show "doi_pattern not_newline s"
    unfolding doi_pattern_def by blast
next
  assume "doi_pattern not_newline s"
  then obtain d gs c rest where *: "s = ''10.'' @ d @ concat gs @ ''/'' @ c # rest" "length d = 4"
     "list_all is_digit d" "list_all dot_group gs" "c \<noteq> newline"
    unfolding doi_pattern_def not_newline_def by blast
  then have "\<exists>t. ''10.'' @ d @ concat gs @ ''/'' @ [c] = ''10.'' @ d @ concat gs @ ''/'' @ t \<and>
      t \<noteq> [] \<and> list_all (\<lambda>c. c \<noteq> newline) t"
    by simp
  with * have "''10.'' @ d @ concat gs @ ''/'' @ [c] \<in> lang DOI_REGEX"
    unfolding lang_DOI_REGEX by blast
  moreover have "s = (''10.'' @ d @ concat gs @ ''/'' @ [c]) @ rest" using * by simp
  ultimately show "is_doi_valid s"
    unfolding is_doi_valid_def re_match_iff by blast
qed

lemmas doi_eval = is_doi_valid_def DOI_REGEX_def rrep_def rplus_def rdigit_def newline_def
  eval_nat_numeral

subsection \<open>\<^verbatim>\<open>is_doi_valid\<close>\<close>

text \<open>
  C5, as the code has it. \<^verbatim>\<open>is_doi_valid\<close> holds exactly of the strings that start with
  \<^verbatim>\<open>10.\<close>, exactly four digits, any number of groups of a dot and one or more digits, a
  slash, and one more character that is not a newline (the \<^verbatim>\<open>.\<close> of the pattern does not
  match a newline); anything may follow. It holds of \<^verbatim>\<open>10.1000/182\<close> and fails on
  \<^verbatim>\<open>not-a-doi\<close> and on \<^verbatim>\<open>10.1/182\<close>. The function is total: it never raises.
\<close>

theorem is_doi_valid_pattern:
  "(is_doi_valid s \<longleftrightarrow> doi_pattern not_newline s) \<and>
   is_doi_valid ''10.1000/182'' \<and> \<not> is_doi_valid ''not-a-doi'' \<and> \<not> is_doi_valid ''10.1/182''"
proof -
  have "is_doi_valid ''10.1000/182''" by (simp add: doi_eval)
  moreover have "\<not> is_doi_valid ''not-a-doi''" by (simp add: doi_eval)
  moreover have "\<not> is_doi_valid ''10.1/182''" by (simp add: doi_eval)
  ultimately show ?thesis using is_doi_valid_iff by blast
qed

theorem is_doi_valid_pattern_witness:
  "is_doi_valid ''10.1000.25/a b'' \<and> doi_pattern not_newline ''10.1000.25/a b''"
proof -
  have "is_doi_valid ''10.1000.25/a b''" by (simp add: doi_eval)
  then show ?thesis using is_doi_valid_pattern [of "''10.1000.25/a b''"] by blast
qed

text \<open>
  The pattern as the claim words it lets any character follow the slash; a newline there
  fits the claim's pattern and is rejected by the code.
\<close>

theorem is_doi_valid_newline_counterexample:
  "doi_pattern any_char (''10.1000/'' @ [newline]) \<and> \<not> is_doi_valid (''10.1000/'' @ [newline])"
proof -
  have "''10.1000/'' @ [newline] = ''10.'' @ ''1000'' @ concat [] @ ''/'' @ newline # [] \<and>
      length ''1000'' = 4 \<and> list_all is_digit ''1000'' \<and> list_all dot_group [] \<and> any_char newline"
    by (simp add: is_digit_def any_char_def)
  then have "doi_pattern any_char (''10.1000/'' @ [newline])"
    unfolding doi_pattern_def by blast
  moreover have "\<not> is_doi_valid (''10.1000/'' @ [newline])" by (simp add: doi_eval)
  ultimately show ?thesis by blast
qed

subsection \<open>\<^verbatim>\<open>doi_to_url\<close>\<close>

lemma quote_Nil: "quote [] = []"
  by (simp add: quote_def quote_from_bytes_def)

lemma quote_Cons: "quote (c # s) = quoter (ALWAYS_SAFE @ ''/'') c @ quote s"
  by (simp add: quote_def quote_from_bytes_def)

lemma quote_append: "quote (a @ b) = quote a @ quote b"
  by (simp add: quote_def quote_from_bytes_def)

lemma quote_slash: "quote ''/'' = ''/''"
  by (simp add: quote_def quote_from_bytes_def quoter_def)

lemma percent_unsafe: "CHR ''%'' \<notin> set (ALWAYS_SAFE @ ''/'')"
  by (simp add: ALWAYS_SAFE_def)

lemma unquote_plain: "a \<noteq> CHR ''%'' \<Longrightarrow> unquote (a # r) = a # unquote r"
  by (induction r rule: unquote.induct) auto

lemma below_16:
  "(n::nat) < 16 \<Longrightarrow> n \<in> {0, 1, 2, 3, 4, 5, 6, 7, 8, 9, 10, 11, 12, 13, 14, 15}"
  by (simp only: insert_iff empty_iff) arith

lemma hex_value_digit: "n < 16 \<Longrightarrow> hex_value (hex_digit n) = n"
  using below_16 [of n] by (auto simp: hex_value_def hex_digit_def is_digit_def)

lemma unquote_escape:
  "unquote (CHR ''%'' # hex_digit (of_char b div 16) # hex_digit (of_char b mod 16) # r) =
     b # unquote r"
proof -
  have "(of_char b :: nat) < 256" by simp
  then have hi: "(of_char b :: nat) div 16 < 16"
    by (simp add: less_mult_imp_div_less)
  have lo: "(of_char b :: nat) mod 16 < 16" by simp
  have "16 * hex_value (hex_digit (of_char b div 16)) + hex_value (hex_digit (of_char b mod 16))
      = (of_char b :: nat)"
    by (simp only: hex_value_digit [OF hi] hex_value_digit [OF lo]) simp
  then show ?thesis by simp
qed

lemma unquote_quote: "unquote (quote s) = s"
proof (induction s)
  case Nil
  then show ?case by (simp add: quote_Nil)
next
  case (Cons c s)
  show ?case
  proof (cases "c \<in> set (ALWAYS_SAFE @ ''/'')")
    case True
    then have "c \<noteq> CHR ''%''" using percent_unsafe by blast
    with True Cons show ?thesis
      by (simp add: quote_Cons quoter_def unquote_plain del: set_append)
  next
    case False
    with Cons show ?thesis
      by (simp add: quote_Cons quoter_def unquote_escape del: set_append unquote.simps)
  qed
qed

lemmas quote_eval = doi_to_url_def DOI_URL_BASE_def quote_def quote_from_bytes_def quoter_def
  ALWAYS_SAFE_def hex_digit_def

text \<open>
  C6. \<^verbatim>\<open>doi_to_url\<close> returns \<^verbatim>\<open>https://doi.org/\<close> followed by the percent-encoding of the
  DOI: a slash stays a slash wherever it stands, decoding the \<^verbatim>\<open>%XX\<close> escapes gives the DOI
  back, and \<^verbatim>\<open>10.1000/182\<close> becomes \<^verbatim>\<open>https://doi.org/10.1000/182\<close>; a character outside
  the unreserved ones, such as a space, is escaped.
\<close>

theorem doi_to_url_percent_encodes:
  "doi_to_url s = ''https://doi.org/'' @ quote s \<and>
   quote (a @ ''/'' @ b) = quote a @ ''/'' @ quote b \<and>
   unquote (quote s) = s \<and>
   doi_to_url ''10.1000/182'' = ''https://doi.org/10.1000/182'' \<and>
   doi_to_url ''10.1000/a b'' = ''https://doi.org/10.1000/a%20b''"
proof -
  have "doi_to_url s = ''https://doi.org/'' @ quote s"
    by (simp add: doi_to_url_def DOI_URL_BASE_def)
  moreover have "quote (a @ ''/'' @ b) = quote a @ ''/'' @ quote b"
    by (simp only: quote_append quote_slash)
  moreover have "doi_to_url ''10.1000/182'' = ''https://doi.org/10.1000/182''"
    by (simp add: quote_eval)
  moreover have "doi_to_url ''10.1000/a b'' = ''https://doi.org/10.1000/a%20b''"
    by (simp add: quote_eval)
  ultimately show ?thesis using unquote_quote by blast
qed

theorem doi_to_url_percent_encodes_witness:
  "doi_to_url ''10.5555/x y'' = ''https://doi.org/10.5555/x%20y'' \<and>
   unquote ''10.5555/x%20y'' = ''10.5555/x y''"
proof -
  have q: "quote ''10.5555/x y'' = ''10.5555/x%20y''" by (simp add: quote_eval)
  show ?thesis
    using doi_to_url_percent_encodes [of "''10.5555/x y''" "[]" "[]"] unfolding q by simp
qed

subsection \<open>\<^verbatim>\<open>remove_link\<close>\<close>

lemma remove_link_loop_none:
  "\<forall>x \<in> set ls. \<not> (rel x = CITE_AS \<and> target x = url) \<Longrightarrow> remove_link_loop url ls = ls"
  by (induction ls) auto

lemma remove_link_loop_first:
  "\<forall>x \<in> set xs. \<not> (rel x = CITE_AS \<and> target x = url) \<Longrightarrow> rel l = CITE_AS \<Longrightarrow>
     target l = url \<Longrightarrow> remove_link_loop url (xs @ l # ys) = xs @ ys"
  by (induction xs) auto

lemma remove_link_none: "\<forall>x \<in> set ls. \<not> cites pub x \<Longrightarrow> remove_link ls pub = ls"
  by (simp add: remove_link_def cites_def remove_link_loop_none)

lemma remove_link_first:
  "\<forall>x \<in> set xs. \<not> cites pub x \<Longrightarrow> cites pub l \<Longrightarrow> remove_link (xs @ l # ys) pub = xs @ ys"
  by (simp add: remove_link_def cites_def remove_link_loop_first)

lemma first_match_split:
  "\<exists>x \<in> set ls. P x \<Longrightarrow> \<exists>xs l ys. ls = xs @ l # ys \<and> (\<forall>x \<in> set xs. \<not> P x) \<and> P l"
  using split_list_first_prop [of ls P] by blast

lemma remove_link_cases:
  "remove_link ls pub = ls \<or>
   (\<exists>xs l ys. ls = xs @ l # ys \<and> cites pub l \<and> remove_link ls pub = xs @ ys)"
proof (cases "\<exists>x \<in> set ls. cites pub x")
  case True
  then obtain xs l ys where "ls = xs @ l # ys" "\<forall>x \<in> set xs. \<not> cites pub x" "cites pub l"
    using first_match_split [of ls "cites pub"] by blast
  then show ?thesis using remove_link_first by blast
next
  case False
  then show ?thesis using remove_link_none by blast
qed

lemmas url_eval = quote_eval CITE_AS_def cites_def

text \<open>
  C3. \<^verbatim>\<open>remove_link\<close> deletes the first link that is a \<^verbatim>\<open>cite-as\<close> link to the
  publication's URL and nothing else, later duplicates included; when no link is one, the
  list is returned as it was. The function has no error to return.
\<close>

theorem remove_link_first_match:
  "(ls = xs @ l # ys \<and> (\<forall>x \<in> set xs. \<not> cites pub x) \<and> cites pub l \<longrightarrow>
      remove_link ls pub = xs @ ys) \<and>
   ((\<forall>x \<in> set ls. \<not> cites pub x) \<longrightarrow> remove_link ls pub = ls)"
  using remove_link_first remove_link_none by blast

theorem remove_link_first_match_witness:
  "remove_link
     [\<lparr>rel = ''self'', target = ''https://doi.org/10.1000/182''\<rparr>,
      \<lparr>rel = ''cite-as'', target = ''https://doi.org/10.1000/182''\<rparr>,
      \<lparr>rel = ''cite-as'', target = ''https://doi.org/10.1000/182''\<rparr>]
     \<lparr>doi = ''10.1000/182'', citation = ''A''\<rparr> =
     [\<lparr>rel = ''self'', target = ''https://doi.org/10.1000/182''\<rparr>,
      \<lparr>rel = ''cite-as'', target = ''https://doi.org/10.1000/182''\<rparr>] \<and>
   remove_link
     [\<lparr>rel = ''self'', target = ''https://doi.org/10.1000/182''\<rparr>,
      \<lparr>rel = ''cite-as'', target = ''https://doi.org/10.5555/1''\<rparr>]
     \<lparr>doi = ''10.1000/182'', citation = ''A''\<rparr> =
     [\<lparr>rel = ''self'', target = ''https://doi.org/10.1000/182''\<rparr>,
      \<lparr>rel = ''cite-as'', target = ''https://doi.org/10.5555/1''\<rparr>]"
proof -
  let ?pub = "\<lparr>doi = ''10.1000/182'', citation = ''A''\<rparr>"
  let ?self = "\<lparr>rel = ''self'', target = ''https://doi.org/10.1000/182''\<rparr>"
  let ?cite = "\<lparr>rel = ''cite-as'', target = ''https://doi.org/10.1000/182''\<rparr>"
  let ?other = "\<lparr>rel = ''cite-as'', target = ''https://doi.org/10.5555/1''\<rparr>"
  have a: "[?self, ?cite, ?cite] = [?self] @ ?cite # [?cite] \<and>
      (\<forall>x \<in> set [?self]. \<not> cites ?pub x) \<and> cites ?pub ?cite"
    by (simp add: url_eval)
  have b: "\<forall>x \<in> set [?self, ?other]. \<not> cites ?pub x"
    by (simp add: url_eval)
  from a b show ?thesis
    using remove_link_first_match [of "[?self, ?cite, ?cite]" "[?self]" ?cite "[?cite]" ?pub]
      remove_link_first_match [of "[?self, ?other]" "[]" ?self "[]" ?pub]
    by simp
qed

subsection \<open>The setters and \<^verbatim>\<open>apply\<close>\<close>

lemma key_distinct:
  "DOI \<noteq> CITATION" "DOI \<noteq> PUBLICATIONS" "CITATION \<noteq> PUBLICATIONS"
  "CITATION \<noteq> DOI" "PUBLICATIONS \<noteq> DOI" "PUBLICATIONS \<noteq> CITATION"
  by (simp_all add: DOI_def CITATION_def PUBLICATIONS_def PREFIX_def)

lemma item_set_doi:
  "ScientificItemExt_set_doi v it =
     (Inr (), it\<lparr>properties := (properties it)(DOI \<mapsto> VStr v),
                 links := links it @ [\<lparr>rel = CITE_AS, target = doi_to_url v\<rparr>]\<rparr>)"
  by (simp add: ScientificItemExt_set_doi_def ScientificItemExt_doi_def add_link_def)

lemma collection_set_doi:
  "ScientificCollectionExt_set_doi v co =
     (Inr (), co\<lparr>extra_fields := (extra_fields co)(DOI \<mapsto> VStr v),
                 clinks := clinks co @ [\<lparr>rel = CITE_AS, target = doi_to_url v\<rparr>]\<rparr>)"
  by (simp add: ScientificCollectionExt_set_doi_def ScientificCollectionExt_doi_def c_add_link_def)

lemma foldl_add_link:
  "foldl (\<lambda>h pub. add_link (get_link pub) h) it v =
     it\<lparr>links := links it @ map get_link v\<rparr>"
  by (induction v arbitrary: it) (simp_all add: add_link_def)

lemma foldl_c_add_link:
  "foldl (\<lambda>h pub. c_add_link (get_link pub) h) co v =
     co\<lparr>clinks := clinks co @ map get_link v\<rparr>"
  by (induction v arbitrary: co) (simp_all add: c_add_link_def)

lemma item_set_publications:
  "ScientificItemExt_set_publications v it =
     (Inr (), it\<lparr>properties := (properties it)(PUBLICATIONS \<mapsto> VList (map to_dict v)),
                 links := links it @ map get_link v\<rparr>)"
  by (simp add: ScientificItemExt_set_publications_def foldl_add_link)

lemma collection_set_publications:
  "ScientificCollectionExt_set_publications v co =
     (Inr (), co\<lparr>extra_fields := (extra_fields co)(PUBLICATIONS \<mapsto> VList (map to_dict v)),
                 clinks := clinks co @ map get_link v\<rparr>)"
  by (simp add: ScientificCollectionExt_set_publications_def foldl_c_add_link)

text \<open>
  C4. Setting \<^verbatim>\<open>doi\<close> to \<open>v\<close> returns normally, writes \<open>v\<close> under \<^verbatim>\<open>sci:doi\<close> and appends
  one \<^verbatim>\<open>cite-as\<close> link to \<^verbatim>\<open>doi_to_url v\<close> after the links already there, which are all
  kept; the link count grows by one, and two sets of the same DOI on a fresh host leave two
  equal links. Items and collections alike.
\<close>

theorem set_doi_appends_link:
  "ScientificItemExt_set_doi v it =
     (Inr (), it\<lparr>properties := (properties it)(DOI \<mapsto> VStr v),
                 links := links it @ [\<lparr>rel = CITE_AS, target = doi_to_url v\<rparr>]\<rparr>) \<and>
   ScientificCollectionExt_set_doi v co =
     (Inr (), co\<lparr>extra_fields := (extra_fields co)(DOI \<mapsto> VStr v),
                 clinks := clinks co @ [\<lparr>rel = CITE_AS, target = doi_to_url v\<rparr>]\<rparr>) \<and>
   length (links (snd (ScientificItemExt_set_doi v it))) = length (links it) + 1 \<and>
   length (clinks (snd (ScientificCollectionExt_set_doi v co))) = length (clinks co) + 1 \<and>
   links (snd (ScientificItemExt_set_doi v (snd (ScientificItemExt_set_doi v fresh_item)))) =
     [\<lparr>rel = CITE_AS, target = doi_to_url v\<rparr>, \<lparr>rel = CITE_AS, target = doi_to_url v\<rparr>] \<and>
   clinks (snd (ScientificCollectionExt_set_doi v
       (snd (ScientificCollectionExt_set_doi v fresh_collection)))) =
     [\<lparr>rel = CITE_AS, target = doi_to_url v\<rparr>, \<lparr>rel = CITE_AS, target = doi_to_url v\<rparr>]"
  by (simp add: item_set_doi collection_set_doi fresh_item_def fresh_collection_def)

theorem set_doi_appends_link_witness:
  "links (snd (ScientificItemExt_set_doi ''10.1000/182''
      (snd (ScientificItemExt_set_doi ''10.1000/182'' fresh_item)))) =
     [\<lparr>rel = ''cite-as'', target = ''https://doi.org/10.1000/182''\<rparr>,
      \<lparr>rel = ''cite-as'', target = ''https://doi.org/10.1000/182''\<rparr>] \<and>
   clinks (snd (ScientificCollectionExt_set_doi ''10.1000/182''
      (snd (ScientificCollectionExt_set_doi ''10.1000/182'' fresh_collection)))) =
     [\<lparr>rel = ''cite-as'', target = ''https://doi.org/10.1000/182''\<rparr>,
      \<lparr>rel = ''cite-as'', target = ''https://doi.org/10.1000/182''\<rparr>]"
proof -
  have u: "doi_to_url ''10.1000/182'' = ''https://doi.org/10.1000/182''"
    by (simp add: quote_eval)
  note t = set_doi_appends_link [of "''10.1000/182''" fresh_item fresh_collection]
  from t [unfolded u CITE_AS_def] show ?thesis by blast
qed

lemma item_apply:
  "ScientificItemExt_apply d c ps it =
     (Inr (),
      it\<lparr>properties :=
           (let p1 = (if truthy d then (properties it)(DOI \<mapsto> VStr (the d)) else properties it);
                p2 = (if truthy c then p1(CITATION \<mapsto> VStr (the c)) else p1)
            in if truthy ps then p2(PUBLICATIONS \<mapsto> VList (map to_dict (the ps))) else p2),
         links := links it
           @ (if truthy d then [\<lparr>rel = CITE_AS, target = doi_to_url (the d)\<rparr>] else [])
           @ (if truthy ps then map get_link (the ps) else [])\<rparr>)"
  by (simp add: ScientificItemExt_apply_def and_then_def skip_def item_set_doi
      ScientificItemExt_set_citation_def item_set_publications)

lemma collection_apply:
  "ScientificCollectionExt_apply d c ps co =
     (Inr (),
      co\<lparr>extra_fields :=
           (let p1 = (if truthy d then (extra_fields co)(DOI \<mapsto> VStr (the d)) else extra_fields co);
                p2 = (if truthy c then p1(CITATION \<mapsto> VStr (the c)) else p1)
            in if truthy ps then p2(PUBLICATIONS \<mapsto> VList (map to_dict (the ps))) else p2),
         clinks := clinks co
           @ (if truthy d then [\<lparr>rel = CITE_AS, target = doi_to_url (the d)\<rparr>] else [])
           @ (if truthy ps then map get_link (the ps) else [])\<rparr>)"
  by (simp add: ScientificCollectionExt_apply_def and_then_def skip_def collection_set_doi
      ScientificCollectionExt_set_citation_def collection_set_publications)

text \<open>
  C8. An argument of \<^verbatim>\<open>apply\<close> that is absent or empty is skipped: the field it names keeps
  what it had, whatever the other arguments are, and it adds no link: without a truthy
  \<^verbatim>\<open>doi\<close> the links added are those of \<^verbatim>\<open>publications\<close> alone, without truthy
  \<^verbatim>\<open>publications\<close> the one of \<^verbatim>\<open>doi\<close> alone, and with neither the link sequence is
  unchanged. With nothing truthy the host is unchanged, and the call returns normally.
  Items and collections alike.
\<close>

theorem apply_skips_falsy:
  "(\<not> truthy d \<longrightarrow>
      properties (snd (ScientificItemExt_apply d c ps it)) DOI = properties it DOI \<and>
      links (snd (ScientificItemExt_apply d c ps it)) =
        links it @ (if truthy ps then map get_link (the ps) else []) \<and>
      extra_fields (snd (ScientificCollectionExt_apply d c ps co)) DOI = extra_fields co DOI \<and>
      clinks (snd (ScientificCollectionExt_apply d c ps co)) =
        clinks co @ (if truthy ps then map get_link (the ps) else [])) \<and>
   (\<not> truthy c \<longrightarrow>
      properties (snd (ScientificItemExt_apply d c ps it)) CITATION = properties it CITATION \<and>
      extra_fields (snd (ScientificCollectionExt_apply d c ps co)) CITATION =
        extra_fields co CITATION) \<and>
   (\<not> truthy ps \<longrightarrow>
      properties (snd (ScientificItemExt_apply d c ps it)) PUBLICATIONS =
        properties it PUBLICATIONS \<and>
      links (snd (ScientificItemExt_apply d c ps it)) =
        links it @ (if truthy d then [\<lparr>rel = CITE_AS, target = doi_to_url (the d)\<rparr>] else []) \<and>
      extra_fields (snd (ScientificCollectionExt_apply d c ps co)) PUBLICATIONS =
        extra_fields co PUBLICATIONS \<and>
      clinks (snd (ScientificCollectionExt_apply d c ps co)) =
        clinks co @ (if truthy d then [\<lparr>rel = CITE_AS, target = doi_to_url (the d)\<rparr>] else [])) \<and>
   (\<not> truthy d \<and> \<not> truthy ps \<longrightarrow>
      links (snd (ScientificItemExt_apply d c ps it)) = links it \<and>
      clinks (snd (ScientificCollectionExt_apply d c ps co)) = clinks co) \<and>
   (\<not> truthy d \<and> \<not> truthy c \<and> \<not> truthy ps \<longrightarrow>
      ScientificItemExt_apply d c ps it = (Inr (), it) \<and>
      ScientificCollectionExt_apply d c ps co = (Inr (), co))"
  by (simp add: item_apply collection_apply key_distinct Let_def)

theorem apply_skips_falsy_witness:
  "ScientificItemExt_apply (Some []) None (Some [])
     \<lparr>properties = [DOI \<mapsto> VStr ''10.1000/182''], links = []\<rparr> =
     (Inr (), \<lparr>properties = [DOI \<mapsto> VStr ''10.1000/182''], links = []\<rparr>) \<and>
   ScientificCollectionExt_apply (Some []) None (Some [])
     \<lparr>extra_fields = [DOI \<mapsto> VStr ''10.1000/182''], clinks = []\<rparr> =
     (Inr (), \<lparr>extra_fields = [DOI \<mapsto> VStr ''10.1000/182''], clinks = []\<rparr>)"
proof -
  have f: "\<not> truthy (Some ([] :: string))" "\<not> truthy (None :: string option)"
      "\<not> truthy (Some ([] :: publication list))"
    by (simp_all add: truthy_def)
  note t = apply_skips_falsy [of "Some []" "None" "Some []"
      "\<lparr>properties = [DOI \<mapsto> VStr ''10.1000/182''], links = []\<rparr>"
      "\<lparr>extra_fields = [DOI \<mapsto> VStr ''10.1000/182''], clinks = []\<rparr>"]
  from f t show ?thesis by blast
qed

subsection \<open>\<^verbatim>\<open>remove_publication\<close>\<close>

lemma from_dict_to_dict: "from_dict (to_dict p) = Inr p"
  by (simp add: from_dict_def to_dict_def)

lemma to_dict_inject: "to_dict p = to_dict q \<longleftrightarrow> p = q"
  by (metis from_dict_to_dict sum.inject(2))

lemma list_remove_absent: "x \<notin> set xs \<Longrightarrow> list_remove x xs = Inl ValueError"
  by (induction xs) auto

lemma list_remove_first: "x \<notin> set xs \<Longrightarrow> list_remove x (xs @ x # ys) = Inr (xs @ ys)"
  by (induction xs) auto

lemma list_remove_subset: "list_remove x xs = Inr ys \<Longrightarrow> set ys \<subseteq> set xs"
  by (induction xs arbitrary: ys) (auto split: if_splits sum.splits)

lemma item_remove_missing:
  "properties it PUBLICATIONS = Some (VList ds) \<Longrightarrow> to_dict pub \<notin> set ds \<Longrightarrow>
     ScientificItemExt_remove_publication (Some pub) it =
       (Inl ValueError, it\<lparr>links := remove_link (links it) pub\<rparr>)"
  by (simp add: ScientificItemExt_remove_publication_def list_remove_absent Let_def)

lemma item_remove_present:
  "properties it PUBLICATIONS = Some (VList (xs @ to_dict pub # ys)) \<Longrightarrow> to_dict pub \<notin> set xs \<Longrightarrow>
     ScientificItemExt_remove_publication (Some pub) it =
       (Inr (), it\<lparr>links := remove_link (links it) pub,
                   properties := (if xs @ ys = [] then (properties it)(PUBLICATIONS := None)
                                  else (properties it)(PUBLICATIONS \<mapsto> VList (xs @ ys)))\<rparr>)"
  by (simp add: ScientificItemExt_remove_publication_def list_remove_first Let_def)

text \<open>
  C2. When the field holds a list in which no dict equals the publication's, removing the
  publication raises ValueError, the not-found error of \<^verbatim>\<open>list.remove\<close>. The host is left
  with the field bag as it was and with the links after the link removal that ran first:
  either unchanged, or without one \<^verbatim>\<open>cite-as\<close> link to the publication's URL.
\<close>

theorem remove_publication_not_found:
  "properties it PUBLICATIONS = Some (VList ds) \<and> to_dict pub \<notin> set ds \<longrightarrow>
     fst (ScientificItemExt_remove_publication (Some pub) it) = Inl ValueError \<and>
     snd (ScientificItemExt_remove_publication (Some pub) it) =
       it\<lparr>links := remove_link (links it) pub\<rparr> \<and>
     properties (snd (ScientificItemExt_remove_publication (Some pub) it)) = properties it \<and>
     (links (snd (ScientificItemExt_remove_publication (Some pub) it)) = links it \<or>
      (\<exists>xs l ys. links it = xs @ l # ys \<and> cites pub l \<and>
         links (snd (ScientificItemExt_remove_publication (Some pub) it)) = xs @ ys))"
  using remove_link_cases [of "links it" pub] by (auto simp: item_remove_missing)

theorem remove_publication_not_found_witness:
  "ScientificItemExt_remove_publication (Some \<lparr>doi = ''10.9999/x'', citation = ''Z''\<rparr>)
     \<lparr>properties = [PUBLICATIONS \<mapsto> VList [to_dict \<lparr>doi = ''10.5555/1'', citation = ''A''\<rparr>]],
      links = [\<lparr>rel = ''cite-as'', target = ''https://doi.org/10.5555/1''\<rparr>,
               \<lparr>rel = ''cite-as'', target = ''https://doi.org/10.9999/x''\<rparr>]\<rparr> =
     (Inl ValueError,
      \<lparr>properties = [PUBLICATIONS \<mapsto> VList [to_dict \<lparr>doi = ''10.5555/1'', citation = ''A''\<rparr>]],
       links = [\<lparr>rel = ''cite-as'', target = ''https://doi.org/10.5555/1''\<rparr>]\<rparr>)"
proof -
  let ?z = "\<lparr>doi = ''10.9999/x'', citation = ''Z''\<rparr>"
  let ?a = "\<lparr>doi = ''10.5555/1'', citation = ''A''\<rparr>"
  let ?it = "\<lparr>properties = [PUBLICATIONS \<mapsto> VList [to_dict ?a]],
      links = [\<lparr>rel = ''cite-as'', target = ''https://doi.org/10.5555/1''\<rparr>,
               \<lparr>rel = ''cite-as'', target = ''https://doi.org/10.9999/x''\<rparr>]\<rparr>"
  have h: "properties ?it PUBLICATIONS = Some (VList [to_dict ?a]) \<and> to_dict ?z \<notin> set [to_dict ?a]"
    by (simp add: to_dict_inject)
  have l: "remove_link (links ?it) ?z = [\<lparr>rel = ''cite-as'', target = ''https://doi.org/10.5555/1''\<rparr>]"
    by (simp add: remove_link_def url_eval)
  note t = remove_publication_not_found [of ?it "[to_dict ?a]" ?z]
  from t h have "fst (ScientificItemExt_remove_publication (Some ?z) ?it) = Inl ValueError"
    and "snd (ScientificItemExt_remove_publication (Some ?z) ?it) =
       ?it\<lparr>links := remove_link (links ?it) ?z\<rparr>"
    by blast+
  then show ?thesis unfolding l by (simp add: prod_eq_iff)
qed

text \<open>
  C10, as the code has it. When the stored list holds the publication's dict more than once,
  removing the publication returns normally and takes out the first of these dicts only:
  what stands before and after it stays, the later duplicates among it, and the field is
  kept. The link removal is best effort: when the links hold a \<^verbatim>\<open>cite-as\<close> link to the
  publication's URL, the first such link is taken out and every other link stays, later
  duplicates among them; when they hold none, the links are unchanged.
\<close>

theorem remove_publication_first_duplicate:
  "properties it PUBLICATIONS = Some (VList (xs @ to_dict pub # ys)) \<and>
   to_dict pub \<notin> set xs \<and> to_dict pub \<in> set ys \<longrightarrow>
     fst (ScientificItemExt_remove_publication (Some pub) it) = Inr () \<and>
     properties (snd (ScientificItemExt_remove_publication (Some pub) it)) =
       (properties it)(PUBLICATIONS \<mapsto> VList (xs @ ys)) \<and>
     (links it = ls @ l # rs \<and> (\<forall>x \<in> set ls. \<not> cites pub x) \<and> cites pub l \<longrightarrow>
        links (snd (ScientificItemExt_remove_publication (Some pub) it)) = ls @ rs) \<and>
     ((\<forall>x \<in> set (links it). \<not> cites pub x) \<longrightarrow>
        links (snd (ScientificItemExt_remove_publication (Some pub) it)) = links it)"
proof -
  have "ys \<noteq> []" if "to_dict pub \<in> set ys"
    using that by auto
  then show ?thesis
    by (auto simp: item_remove_present remove_link_first remove_link_none)
qed

theorem remove_publication_first_duplicate_witness:
  "ScientificItemExt_remove_publication (Some \<lparr>doi = ''10.5555/1'', citation = ''A''\<rparr>)
     \<lparr>properties = [PUBLICATIONS \<mapsto> VList
         [to_dict \<lparr>doi = ''10.5555/2'', citation = ''B''\<rparr>,
          to_dict \<lparr>doi = ''10.5555/1'', citation = ''A''\<rparr>,
          to_dict \<lparr>doi = ''10.5555/1'', citation = ''A''\<rparr>]],
      links = [\<lparr>rel = ''cite-as'', target = ''https://doi.org/10.5555/2''\<rparr>,
               \<lparr>rel = ''cite-as'', target = ''https://doi.org/10.5555/1''\<rparr>,
               \<lparr>rel = ''cite-as'', target = ''https://doi.org/10.5555/1''\<rparr>]\<rparr> =
     (Inr (),
      \<lparr>properties = [PUBLICATIONS \<mapsto> VList
         [to_dict \<lparr>doi = ''10.5555/2'', citation = ''B''\<rparr>,
          to_dict \<lparr>doi = ''10.5555/1'', citation = ''A''\<rparr>]],
       links = [\<lparr>rel = ''cite-as'', target = ''https://doi.org/10.5555/2''\<rparr>,
                \<lparr>rel = ''cite-as'', target = ''https://doi.org/10.5555/1''\<rparr>]\<rparr>)"
proof -
  let ?a = "\<lparr>doi = ''10.5555/1'', citation = ''A''\<rparr>"
  let ?b = "\<lparr>doi = ''10.5555/2'', citation = ''B''\<rparr>"
  let ?la = "\<lparr>rel = ''cite-as'', target = ''https://doi.org/10.5555/1''\<rparr>"
  let ?lb = "\<lparr>rel = ''cite-as'', target = ''https://doi.org/10.5555/2''\<rparr>"
  let ?it = "\<lparr>properties = [PUBLICATIONS \<mapsto> VList [to_dict ?b, to_dict ?a, to_dict ?a]],
      links = [?lb, ?la, ?la]\<rparr>"
  let ?r = "ScientificItemExt_remove_publication (Some ?a) ?it"
  have h: "properties ?it PUBLICATIONS = Some (VList ([to_dict ?b] @ to_dict ?a # [to_dict ?a])) \<and>
      to_dict ?a \<notin> set [to_dict ?b] \<and> to_dict ?a \<in> set [to_dict ?a]"
    by (simp add: to_dict_inject)
  have k: "links ?it = [?lb] @ ?la # [?la] \<and> (\<forall>x \<in> set [?lb]. \<not> cites ?a x) \<and> cites ?a ?la"
    by (simp add: url_eval)
  note t = remove_publication_first_duplicate
    [of ?it "[to_dict ?b]" ?a "[to_dict ?a]" "[?lb]" ?la "[?la]"]
  from t h k have "fst ?r = Inr ()"
    and "properties (snd ?r) = (properties ?it)(PUBLICATIONS \<mapsto> VList ([to_dict ?b] @ [to_dict ?a]))"
    and "links (snd ?r) = [?lb] @ [?la]"
    by blast+
  then show ?thesis
    by (cases ?r) (simp add: item.equality)
qed

text \<open>
  A host that adapter calls alone produce: the publication is stored twice and no link to
  its URL is left, two removals that failed on another citation of the same DOI having each
  taken one. Removing the publication there takes out one dict and no link.
\<close>

theorem remove_publication_no_link_counterexample:
  "snd (run item_step
      [SetPublications [\<lparr>doi = ''10.5555/1'', citation = ''A''\<rparr>,
                        \<lparr>doi = ''10.5555/1'', citation = ''A''\<rparr>],
       RemovePublication (Some \<lparr>doi = ''10.5555/1'', citation = ''Z''\<rparr>),
       RemovePublication (Some \<lparr>doi = ''10.5555/1'', citation = ''Z''\<rparr>)] fresh_item) =
     \<lparr>properties = [PUBLICATIONS \<mapsto> VList
         [to_dict \<lparr>doi = ''10.5555/1'', citation = ''A''\<rparr>,
          to_dict \<lparr>doi = ''10.5555/1'', citation = ''A''\<rparr>]],
      links = []\<rparr> \<and>
   ScientificItemExt_remove_publication (Some \<lparr>doi = ''10.5555/1'', citation = ''A''\<rparr>)
     \<lparr>properties = [PUBLICATIONS \<mapsto> VList
         [to_dict \<lparr>doi = ''10.5555/1'', citation = ''A''\<rparr>,
          to_dict \<lparr>doi = ''10.5555/1'', citation = ''A''\<rparr>]],
      links = []\<rparr> =
     (Inr (),
      \<lparr>properties = [PUBLICATIONS \<mapsto> VList [to_dict \<lparr>doi = ''10.5555/1'', citation = ''A''\<rparr>]],
       links = []\<rparr>)"
proof -
  let ?a = "\<lparr>doi = ''10.5555/1'', citation = ''A''\<rparr>"
  let ?z = "\<lparr>doi = ''10.5555/1'', citation = ''Z''\<rparr>"
  let ?la = "\<lparr>rel = ''cite-as'', target = ''https://doi.org/10.5555/1''\<rparr>"
  let ?bag = "[PUBLICATIONS \<mapsto> VList [to_dict ?a, to_dict ?a]]"
  have l: "get_link ?a = ?la"
    by (simp add: get_link_def url_eval)
  have s0: "ScientificItemExt_set_publications [?a, ?a] fresh_item =
      (Inr (), \<lparr>properties = ?bag, links = [?la, ?la]\<rparr>)"
    by (simp add: item_set_publications fresh_item_def l)
  have s1: "ScientificItemExt_remove_publication (Some ?z) \<lparr>properties = ?bag, links = [?la, ?la]\<rparr> =
      (Inl ValueError, \<lparr>properties = ?bag, links = [?la]\<rparr>)"
    using item_remove_missing [of "\<lparr>properties = ?bag, links = [?la, ?la]\<rparr>" "[to_dict ?a, to_dict ?a]" ?z]
    by (simp add: to_dict_inject remove_link_def url_eval)
  have s2: "ScientificItemExt_remove_publication (Some ?z) \<lparr>properties = ?bag, links = [?la]\<rparr> =
      (Inl ValueError, \<lparr>properties = ?bag, links = []\<rparr>)"
    using item_remove_missing [of "\<lparr>properties = ?bag, links = [?la]\<rparr>" "[to_dict ?a, to_dict ?a]" ?z]
    by (simp add: to_dict_inject remove_link_def url_eval)
  have s3: "ScientificItemExt_remove_publication (Some ?a) \<lparr>properties = ?bag, links = []\<rparr> =
      (Inr (), \<lparr>properties = [PUBLICATIONS \<mapsto> VList [to_dict ?a]], links = []\<rparr>)"
    using item_remove_present [of "\<lparr>properties = ?bag, links = []\<rparr>" "[]" ?a "[to_dict ?a]"]
    by (simp add: remove_link_def)
  show ?thesis
    by (simp add: s0 s1 s2 s3 observe_def)
qed

subsection \<open>Invariant I2\<close>

lemma is_serialized_to_dict: "is_serialized (to_dict p)"
  by (simp add: is_serialized_def from_dict_to_dict)

lemma I2_absent: "bag PUBLICATIONS = None \<Longrightarrow> I2 bag"
  by (simp add: I2_def)

lemma I2_other_key: "k \<noteq> PUBLICATIONS \<Longrightarrow> I2 (bag(k \<mapsto> v)) = I2 bag"
  by (simp add: I2_def)

lemma I2_store:
  "ds \<noteq> [] \<Longrightarrow> list_all is_serialized ds \<Longrightarrow> I2 (bag(PUBLICATIONS \<mapsto> VList ds))"
  by (simp add: I2_def)

lemma I2_set_publications:
  "v \<noteq> [] \<Longrightarrow> I2 (properties (snd (ScientificItemExt_set_publications v it)))"
  by (simp add: item_set_publications I2_store list_all_iff is_serialized_to_dict)

lemma I2_remove_publication:
  assumes "I2 (properties it)"
  shows "I2 (properties (snd (ScientificItemExt_remove_publication p it)))"
proof (cases "properties it PUBLICATIONS")
  case None
  then show ?thesis using assms by (simp add: ScientificItemExt_remove_publication_def)
next
  case (Some stored)
  with assms obtain ds where ds: "stored = VList ds" "ds \<noteq> []" "list_all is_serialized ds"
    by (cases stored) (auto simp: I2_def)
  show ?thesis
  proof (cases p)
    case None
    with Some assms show ?thesis
      by (cases "ScientificItemExt_publications it")
        (simp_all add: ScientificItemExt_remove_publication_def I2_absent)
  next
    case (Some pub)
    show ?thesis
    proof (cases "list_remove (to_dict pub) ds")
      case (Inl e)
      with Some \<open>properties it PUBLICATIONS = Some stored\<close> ds assms show ?thesis
        by (simp add: ScientificItemExt_remove_publication_def Let_def)
    next
      case (Inr ds')
      then have "list_all is_serialized ds'"
        using list_remove_subset [of "to_dict pub" ds ds'] ds(3) by (auto simp: list_all_iff)
      with Inr Some \<open>properties it PUBLICATIONS = Some stored\<close> ds show ?thesis
        by (simp add: ScientificItemExt_remove_publication_def Let_def I2_absent I2_store)
    qed
  qed
qed

lemma I2_apply:
  assumes "I2 (properties it)"
  shows "I2 (properties (snd (ScientificItemExt_apply d c ps it)))"
proof -
  have "the ps \<noteq> []" if "truthy ps"
    using that by (cases ps) (simp_all add: truthy_def)
  then show ?thesis
    using assms
    by (simp add: item_apply Let_def I2_other_key key_distinct I2_store list_all_iff
        is_serialized_to_dict)
qed

lemma I2_step:
  "I2 (properties it) \<Longrightarrow> x \<noteq> SetPublications [] \<Longrightarrow> I2 (properties (snd (item_step x it)))"
proof (cases x)
  case (Apply d c ps)
  assume "I2 (properties it)"
  then have "I2 (properties (snd (ScientificItemExt_apply d c ps it)))" by (rule I2_apply)
  with Apply show ?thesis
    by (cases "ScientificItemExt_apply d c ps it") (auto simp: observe_def split: sum.splits)
next
  case (SetDoi v)
  assume "I2 (properties it)"
  with SetDoi show ?thesis
    by (simp add: observe_def item_set_doi I2_other_key key_distinct)
next
  case (SetCitation v)
  assume "I2 (properties it)"
  with SetCitation show ?thesis
    by (simp add: observe_def ScientificItemExt_set_citation_def I2_other_key key_distinct)
next
  case (SetPublications v)
  assume "x \<noteq> SetPublications []"
  with SetPublications have "v \<noteq> []" by simp
  then have "I2 (properties (snd (ScientificItemExt_set_publications v it)))"
    by (rule I2_set_publications)
  with SetPublications show ?thesis
    by (cases "ScientificItemExt_set_publications v it") (auto simp: observe_def split: sum.splits)
next
  case (RemovePublication p)
  assume "I2 (properties it)"
  then have "I2 (properties (snd (ScientificItemExt_remove_publication p it)))"
    by (rule I2_remove_publication)
  with RemovePublication show ?thesis
    by (cases "ScientificItemExt_remove_publication p it") (auto simp: observe_def split: sum.splits)
qed simp_all

lemma I2_run:
  "I2 (properties it) \<Longrightarrow> SetPublications [] \<notin> set ops \<Longrightarrow>
     I2 (properties (snd (run item_step ops it)))"
proof (induction ops arbitrary: it)
  case Nil
  then show ?case by simp
next
  case (Cons x xs)
  then have "I2 (properties (snd (item_step x it)))"
    using I2_step [of it x] by auto
  then have "I2 (properties (snd (run item_step xs (snd (item_step x it)))))"
    using Cons by simp
  then show ?case by (simp add: split_beta)
qed

lemma item_remove_all:
  "properties it PUBLICATIONS = Some (VList ds) \<Longrightarrow> list_all is_serialized ds \<Longrightarrow>
     \<exists>pubs. ScientificItemExt_remove_publication None it =
       (Inr (), it\<lparr>links := foldl remove_link (links it) pubs,
                   properties := (properties it)(PUBLICATIONS := None)\<rparr>)"
proof -
  assume a: "properties it PUBLICATIONS = Some (VList ds)" and b: "list_all is_serialized ds"
  from b have "\<exists>pubs. map_result from_dict ds = Inr pubs"
    by (induction ds) (auto simp: is_serialized_def split: sum.splits)
  with a show ?thesis
    by (auto simp: ScientificItemExt_remove_publication_def ScientificItemExt_publications_def
        Let_def)
qed

text \<open>
  C1, as the code has it. A fresh host satisfies I2, and every adapter operation keeps it,
  raising or not, except the \<^verbatim>\<open>publications\<close> setter called with the empty list (\<^verbatim>\<open>apply\<close>
  never calls it so): after any sequence of operations without that call, the
  \<^verbatim>\<open>sci:publications\<close> field, when present, is a non-empty list of serialized publications.
  Removing the last publication, named or by clearing all, deletes the field.
\<close>

theorem publications_never_empty:
  "I2 (properties fresh_item) \<and>
   (I2 (properties it) \<and> SetPublications [] \<notin> set ops \<longrightarrow>
      I2 (properties (snd (run item_step ops it)))) \<and>
   (properties it PUBLICATIONS = Some (VList [to_dict pub]) \<longrightarrow>
      properties (snd (ScientificItemExt_remove_publication (Some pub) it)) PUBLICATIONS = None \<and>
      properties (snd (ScientificItemExt_remove_publication None it)) PUBLICATIONS = None)"
proof -
  have "I2 (properties fresh_item)"
    by (simp add: fresh_item_def I2_def)
  moreover have "properties (snd (ScientificItemExt_remove_publication (Some pub) it)) PUBLICATIONS = None"
    if "properties it PUBLICATIONS = Some (VList [to_dict pub])"
    using that item_remove_present [of it "[]" pub "[]"] by simp
  moreover have "properties (snd (ScientificItemExt_remove_publication None it)) PUBLICATIONS = None"
    if "properties it PUBLICATIONS = Some (VList [to_dict pub])"
    using that item_remove_all [of it "[to_dict pub]"] by (auto simp: is_serialized_to_dict)
  ultimately show ?thesis using I2_run by blast
qed

theorem publications_never_empty_witness:
  "I2 (properties (snd (run item_step
      [SetPublications [\<lparr>doi = ''10.5555/1'', citation = ''A''\<rparr>], SetDoi ''10.1000/182'',
       RemovePublication (Some \<lparr>doi = ''10.9999/x'', citation = ''Z''\<rparr>),
       Apply (Some []) None (Some []),
       RemovePublication (Some \<lparr>doi = ''10.5555/1'', citation = ''A''\<rparr>)] fresh_item)))"
proof -
  let ?ops = "[SetPublications [\<lparr>doi = ''10.5555/1'', citation = ''A''\<rparr>], SetDoi ''10.1000/182'',
       RemovePublication (Some \<lparr>doi = ''10.9999/x'', citation = ''Z''\<rparr>),
       Apply (Some []) None (Some []),
       RemovePublication (Some \<lparr>doi = ''10.5555/1'', citation = ''A''\<rparr>)]"
  have "SetPublications [] \<notin> set ?ops" by simp
  then show ?thesis
    using publications_never_empty [of fresh_item ?ops] by blast
qed

text \<open>
  The \<^verbatim>\<open>publications\<close> setter stores what it is given: with the empty list, an empty list
  is left under \<^verbatim>\<open>sci:publications\<close>.
\<close>

theorem set_publications_empty_counterexample:
  "properties (snd (ScientificItemExt_set_publications [] fresh_item)) PUBLICATIONS =
     Some (VList []) \<and>
   \<not> I2 (properties (snd (ScientificItemExt_set_publications [] fresh_item)))"
  by (simp add: item_set_publications I2_def)

subsection \<open>Serialization of publications\<close>

lemma mutate_length: "length (mutate a m h) = length h"
  by (cases m) (auto simp: dict_setitem_def dict_delitem_def split: option.splits obj.splits)

lemma mutate_other: "i \<noteq> a \<Longrightarrow> deref (mutate a m h) i = deref h i"
  by (cases m)
    (auto simp: dict_setitem_def dict_delitem_def deref_def split: option.splits obj.splits)

lemma mutations_other:
  "i \<noteq> a \<Longrightarrow> deref (foldl (\<lambda>g m. mutate a m g) h ms) i = deref h i"
  by (induction ms arbitrary: h) (simp_all add: mutate_other)

lemma heap_to_dict_result:
  "deref h self = Some (PublicationObj p) \<Longrightarrow>
     heap_to_dict self h =
       Inr (Suc (length h), h @ [DictObj (to_dict p), DictObj (to_dict p)])"
  by (simp add: heap_to_dict_def alloc_def deepcopy_def deref_def to_dict_def)

text \<open>
  C7. A publication built from any two strings comes back from \<^verbatim>\<open>from_dict\<close> of its
  \<^verbatim>\<open>to_dict\<close>, equal in both fields. The dict \<^verbatim>\<open>to_dict\<close> returns is a new object: its
  address was not in use before the call, it holds the two fields, and whatever items are
  set or deleted in it afterwards, every object that existed before the call, the
  publication among them, is as it was.
\<close>

theorem publication_round_trip:
  "from_dict (to_dict \<lparr>doi = d, citation = c\<rparr>) = Inr \<lparr>doi = d, citation = c\<rparr> \<and>
   (\<forall>q. from_dict (to_dict \<lparr>doi = d, citation = c\<rparr>) = Inr q \<longrightarrow>
      publication_eq q \<lparr>doi = d, citation = c\<rparr>) \<and>
   (deref h self = Some (PublicationObj p) \<longrightarrow>
      (\<exists>a h'. heap_to_dict self h = Inr (a, h') \<and> deref h a = None \<and>
         deref h' a = Some (DictObj (to_dict p)) \<and>
         (\<forall>ms i. i < length h \<longrightarrow>
            deref (foldl (\<lambda>g m. mutate a m g) h' ms) i = deref h i)))"
proof -
  have "deref h (Suc (length h)) = None \<and>
      deref (h @ [DictObj (to_dict p), DictObj (to_dict p)]) (Suc (length h)) =
        Some (DictObj (to_dict p)) \<and>
      (\<forall>ms i. i < length h \<longrightarrow>
         deref (foldl (\<lambda>g m. mutate (Suc (length h)) m g)
           (h @ [DictObj (to_dict p), DictObj (to_dict p)]) ms) i = deref h i)"
    by (simp add: mutations_other) (simp add: deref_def nth_append)
  then have "\<exists>a h'. heap_to_dict self h = Inr (a, h') \<and> deref h a = None \<and>
         deref h' a = Some (DictObj (to_dict p)) \<and>
         (\<forall>ms i. i < length h \<longrightarrow>
            deref (foldl (\<lambda>g m. mutate a m g) h' ms) i = deref h i)"
    if "deref h self = Some (PublicationObj p)"
    using heap_to_dict_result [OF that] by blast
  then show ?thesis
    by (auto simp: from_dict_to_dict publication_eq_def)
qed

theorem publication_round_trip_witness:
  "from_dict (to_dict \<lparr>doi = ''10.5555/1'', citation = ''A''\<rparr>) =
     Inr \<lparr>doi = ''10.5555/1'', citation = ''A''\<rparr> \<and>
   (\<exists>a h'. heap_to_dict 0 [PublicationObj \<lparr>doi = ''10.5555/1'', citation = ''A''\<rparr>] = Inr (a, h') \<and>
      deref h' a = Some (DictObj (to_dict \<lparr>doi = ''10.5555/1'', citation = ''A''\<rparr>)) \<and>
      deref (foldl (\<lambda>g m. mutate a m g) h' [SetItem ''doi'' ''10.9999/x'', DelItem ''citation'']) 0 =
        Some (PublicationObj \<lparr>doi = ''10.5555/1'', citation = ''A''\<rparr>))"
proof -
  let ?p = "\<lparr>doi = ''10.5555/1'', citation = ''A''\<rparr>"
  have h: "deref [PublicationObj ?p] 0 = Some (PublicationObj ?p)"
    and l: "(0::nat) < length [PublicationObj ?p]"
    by (simp_all add: deref_def)
  note t = publication_round_trip [of "''10.5555/1''" "''A''" "[PublicationObj ?p]" 0 ?p]
  from t h obtain a h' where *: "heap_to_dict 0 [PublicationObj ?p] = Inr (a, h')"
      "deref h' a = Some (DictObj (to_dict ?p))"
      "\<forall>ms i. i < length [PublicationObj ?p] \<longrightarrow>
         deref (foldl (\<lambda>g m. mutate a m g) h' ms) i = deref [PublicationObj ?p] i"
    by blast
  from *(3) l h have "deref (foldl (\<lambda>g m. mutate a m g) h'
      [SetItem ''doi'' ''10.9999/x'', DelItem ''citation'']) 0 = Some (PublicationObj ?p)"
    by metis
  with * t show ?thesis by blast
qed

subsection \<open>Items and collections\<close>

lemma as_collection_fields [simp]:
  "extra_fields (as_collection it) = properties it" "clinks (as_collection it) = links it"
  by (simp_all add: as_collection_def)

lemma as_collection_update:
  "as_collection (it\<lparr>properties := f, links := l\<rparr>) =
     (as_collection it)\<lparr>extra_fields := f, clinks := l\<rparr>"
  "as_collection (it\<lparr>properties := f\<rparr>) = (as_collection it)\<lparr>extra_fields := f\<rparr>"
  "as_collection (it\<lparr>links := l\<rparr>) = (as_collection it)\<lparr>clinks := l\<rparr>"
  "as_collection (it\<lparr>links := l, properties := f\<rparr>) =
     (as_collection it)\<lparr>clinks := l, extra_fields := f\<rparr>"
  by (simp_all add: as_collection_def)

lemma same_doi: "ScientificCollectionExt_doi (as_collection it) = ScientificItemExt_doi it"
  by (simp add: ScientificCollectionExt_doi_def ScientificItemExt_doi_def)

lemma same_citation:
  "ScientificCollectionExt_citation (as_collection it) = ScientificItemExt_citation it"
  by (simp add: ScientificCollectionExt_citation_def ScientificItemExt_citation_def)

lemma same_publications:
  "ScientificCollectionExt_publications (as_collection it) = ScientificItemExt_publications it"
  by (simp add: ScientificCollectionExt_publications_def ScientificItemExt_publications_def)

lemma same_set_doi:
  "ScientificCollectionExt_set_doi v (as_collection it) =
     map_prod id as_collection (ScientificItemExt_set_doi v it)"
  by (simp add: collection_set_doi item_set_doi as_collection_update)

lemma same_set_citation:
  "ScientificCollectionExt_set_citation v (as_collection it) =
     map_prod id as_collection (ScientificItemExt_set_citation v it)"
  by (simp add: ScientificCollectionExt_set_citation_def ScientificItemExt_set_citation_def
      as_collection_update)

lemma same_set_publications:
  "ScientificCollectionExt_set_publications v (as_collection it) =
     map_prod id as_collection (ScientificItemExt_set_publications v it)"
  by (simp add: collection_set_publications item_set_publications as_collection_update)

lemma same_apply:
  "ScientificCollectionExt_apply d c ps (as_collection it) =
     map_prod id as_collection (ScientificItemExt_apply d c ps it)"
  by (simp add: collection_apply item_apply as_collection_update)

lemma same_remove_publication:
  "ScientificCollectionExt_remove_publication p (as_collection it) =
     map_prod id as_collection (ScientificItemExt_remove_publication p it)"
  unfolding ScientificCollectionExt_remove_publication_def ScientificItemExt_remove_publication_def
    same_publications
  by (simp add: as_collection_update Let_def split: option.splits sum.splits pyval.splits)

lemma observe_map: "observe (map_prod id f r) = map_prod id f (observe r)"
  by (cases r) (simp add: observe_def split: sum.splits)

lemma same_step:
  "collection_step x (as_collection it) = map_prod id as_collection (item_step x it)"
  by (cases x)
    (simp_all add: same_doi same_citation same_publications same_set_doi same_set_citation
      same_set_publications same_apply same_remove_publication observe_map)

lemma same_run:
  "run collection_step ops (as_collection it) = map_prod id as_collection (run item_step ops it)"
proof (induction ops arbitrary: it)
  case Nil
  then show ?case by simp
next
  case (Cons x xs)
  obtain ob it1 where s: "item_step x it = (ob, it1)" by (cases "item_step x it")
  then have "collection_step x (as_collection it) = (ob, as_collection it1)"
    by (simp add: same_step)
  with s Cons [of it1] show ?case
    by (simp add: split_beta)
qed

text \<open>
  C9. An item and a collection with the same field bag and the same links answer every
  sequence of adapter operations alike: the same values returned and errors raised, call by
  call, and at the end again the same field bag and the same links. Every collection is such
  a counterpart of an item, and every item of a collection.
\<close>

theorem item_collection_equivalent:
  "fst (run collection_step ops (as_collection it)) = fst (run item_step ops it) \<and>
   extra_fields (snd (run collection_step ops (as_collection it))) =
     properties (snd (run item_step ops it)) \<and>
   clinks (snd (run collection_step ops (as_collection it))) =
     links (snd (run item_step ops it)) \<and>
   as_collection (as_item co) = co \<and> as_item (as_collection it) = it"
proof -
  have "as_collection (as_item co) = co \<and> as_item (as_collection it) = it"
    by (simp add: as_item_def as_collection_def)
  then show ?thesis
    by (simp add: same_run)
qed

theorem item_collection_equivalent_witness:
  "fst (run collection_step
      [SetPublications [\<lparr>doi = ''10.5555/1'', citation = ''A''\<rparr>], GetPublications,
       RemovePublication (Some \<lparr>doi = ''10.9999/x'', citation = ''Z''\<rparr>), GetDoi]
      fresh_collection) =
     [Done, Publications [\<lparr>doi = ''10.5555/1'', citation = ''A''\<rparr>], Raised ValueError, Field None]"
proof -
  let ?ops = "[SetPublications [\<lparr>doi = ''10.5555/1'', citation = ''A''\<rparr>], GetPublications,
       RemovePublication (Some \<lparr>doi = ''10.9999/x'', citation = ''Z''\<rparr>), GetDoi]"
  have c: "as_collection fresh_item = fresh_collection"
    by (simp add: as_collection_def fresh_item_def fresh_collection_def)
  have "fst (run item_step ?ops fresh_item) =
     [Done, Publications [\<lparr>doi = ''10.5555/1'', citation = ''A''\<rparr>], Raised ValueError, Field None]"
    by (simp add: item_set_publications observe_def observe_pubs_def fresh_item_def
        ScientificItemExt_publications_def from_dict_to_dict item_remove_missing to_dict_inject
        ScientificItemExt_doi_def key_distinct)
  then show ?thesis
    using item_collection_equivalent [of ?ops fresh_item] unfolding c by simp
qed

end
